theory Spec2Isabelle
  imports Main
begin

section \<open>Python values, errors and the \<open>%\<close> string formatting operator\<close>

text \<open>
  Both programs (\<^verbatim>\<open>trnnr.py\<close>, the colour variant, and \<^verbatim>\<open>trnns.py\<close>, the plain
  variant) build every string with Python's \<^verbatim>\<open>fmt % (args)\<close>. The operator is modelled
  as an interpreter over the format string, for the conversions that occur in the two
  files: \<^verbatim>\<open>%s\<close> and \<^verbatim>\<open>%d\<close>, with an optional minimum width (\<^verbatim>\<open>%3d\<close>).
  A raised exception is the left summand of the result.
\<close>

datatype py_error = TypeError | ValueError | KeyError

datatype pyval = PStr string | PInt int | PNone

fun then_do :: "py_error + 'a \<Rightarrow> ('a \<Rightarrow> py_error + 'b) \<Rightarrow> py_error + 'b" where
  "then_do (Inl e) f = Inl e"
| "then_do (Inr x) f = f x"

definition digit_char :: "nat \<Rightarrow> char" where
  "digit_char n = ''0123456789'' ! (n mod 10)"

fun dec_nat :: "nat \<Rightarrow> string" where
  "dec_nat n = (if n < 10 then [digit_char n] else dec_nat (n div 10) @ [digit_char n])"

declare dec_nat.simps [simp del]

definition fmt_d :: "int \<Rightarrow> string" where
  \<comment> \<open>base-10 rendering of a Python int: a minus sign for negatives, no padding\<close>
  "fmt_d i = (if i < 0 then CHR ''-'' # dec_nat (nat (- i)) else dec_nat (nat i))"

definition py_str :: "pyval \<Rightarrow> string" where
  \<comment> \<open>\<^verbatim>\<open>str(v)\<close>\<close>
  "py_str v = (case v of PStr s \<Rightarrow> s | PInt i \<Rightarrow> fmt_d i | PNone \<Rightarrow> ''None'')"

definition rjust :: "nat \<Rightarrow> string \<Rightarrow> string" where
  \<comment> \<open>a minimum field width pads with spaces on the left\<close>
  "rjust w s = replicate (w - length s) CHR '' '' @ s"

definition convert :: "char \<Rightarrow> pyval \<Rightarrow> py_error + string" where
  "convert c v =
     (if c = CHR ''s'' then Inr (py_str v)
      else if c = CHR ''d'' then
        (case v of PInt i \<Rightarrow> Inr (fmt_d i) | _ \<Rightarrow> Inl TypeError)
      else Inl ValueError)"

definition is_digit :: "char \<Rightarrow> bool" where
  "is_digit c = (c \<in> set ''0123456789'')"

definition digit_val :: "char \<Rightarrow> nat" where
  "digit_val c = of_char c - 48"

text \<open>
  \<open>format_from None\<close> reads literal text; \<open>format_from (Some w)\<close> is inside a
  conversion specifier whose width digits read so far denote \<open>w\<close>. Too few arguments and
  arguments left over are both \<^verbatim>\<open>TypeError\<close>, as in Python.
\<close>

fun format_from :: "nat option \<Rightarrow> string \<Rightarrow> pyval list \<Rightarrow> py_error + string" where
  "format_from None [] args = (if args = [] then Inr [] else Inl TypeError)"
| "format_from None (c # cs) args =
     (if c = CHR ''%'' then format_from (Some 0) cs args
      else then_do (format_from None cs args) (\<lambda>r. Inr (c # r)))"
| "format_from (Some w) [] args = Inl ValueError"
| "format_from (Some w) (c # cs) args =
     (if is_digit c then format_from (Some (10 * w + digit_val c)) cs args
      else (case args of
              [] \<Rightarrow> Inl TypeError
            | v # vs \<Rightarrow>
                then_do (convert c v) (\<lambda>s.
                then_do (format_from None cs vs) (\<lambda>r. Inr (rjust w s @ r)))))"

definition format :: "string \<Rightarrow> pyval list \<Rightarrow> py_error + string" where
  "format fmt args = format_from None fmt args"

section \<open>Relay descriptors and their canonical string\<close>

text \<open>
  Modelled from the spec: the descriptor class belongs to the \<^verbatim>\<open>stem\<close> library and is not
  part of the repository. Its fields are typed as the data model of the spec gives them:
  text fields are strings (for \<^verbatim>\<open>tor_version\<close>, \<^verbatim>\<open>exit_policy\<close> and \<^verbatim>\<open>published\<close> the
  field holds the text that \<^verbatim>\<open>%s\<close> prints), ports, bandwidths and uptime are integers,
  and only \<^verbatim>\<open>dir_port\<close> may be absent.
\<close>

record descriptor =
  fingerprint :: string
  nickname :: string
  address :: string
  or_port :: int
  dir_port :: "int option"
  tor_version :: string
  exit_policy :: string
  average_bandwidth :: int
  burst_bandwidth :: int
  observed_bandwidth :: int
  operating_system :: string
  published :: string
  uptime :: int
  contact :: string

definition py_opt_int :: "int option \<Rightarrow> pyval" where
  "py_opt_int p = (case p of None \<Rightarrow> PNone | Some i \<Rightarrow> PInt i)"

definition dirport_to_int :: "int option \<Rightarrow> int" where
  "dirport_to_int p = (case p of None \<Rightarrow> 0 | Some i \<Rightarrow> i)"

definition to_str :: "descriptor \<Rightarrow> py_error + string" where
  \<comment> \<open>\<^verbatim>\<open>trnnr.py\<close>\<close>
  "to_str desc =
     format ''%s%s%d%d%s%s%d%d%d%s%s%d%s''
       [PStr (nickname desc),
        PStr (address desc),
        PInt (or_port desc),
        PInt (dirport_to_int (dir_port desc)),
        PStr (tor_version desc),
        PStr (exit_policy desc),
        PInt (average_bandwidth desc),
        PInt (burst_bandwidth desc),
        PInt (observed_bandwidth desc),
        PStr (operating_system desc),
        PStr (published desc),
        PInt (uptime desc),
        PStr (contact desc)]"

definition trnns_to_str :: "descriptor \<Rightarrow> py_error + string" where
  \<comment> \<open>\<^verbatim>\<open>trnns.py\<close>: the same format, the substitution of the directory port written inline\<close>
  "trnns_to_str desc =
     (let p = py_opt_int (dir_port desc);
          p = (if p = PNone then PInt 0 else p)
      in format ''%s%s%d%d%s%s%d%d%d%s%s%d%s''
           [PStr (nickname desc),
            PStr (address desc),
            PInt (or_port desc),
            p,
            PStr (tor_version desc),
            PStr (exit_policy desc),
            PInt (average_bandwidth desc),
            PInt (burst_bandwidth desc),
            PInt (observed_bandwidth desc),
            PStr (operating_system desc),
            PStr (published desc),
            PInt (uptime desc),
            PStr (contact desc)])"

definition desc_to_str :: "descriptor \<Rightarrow> py_error + string" where
  \<comment> \<open>\<^verbatim>\<open>trnnr.py\<close>: the comma-separated display string\<close>
  "desc_to_str desc =
     format ''%s,%s,%s,%d,%d,%s,%s,%d,%d,%d,%d,%s''
       [PStr (take 8 (fingerprint desc)),
        PStr (nickname desc),
        PStr (address desc),
        PInt (or_port desc),
        PInt (dirport_to_int (dir_port desc)),
        PStr (tor_version desc),
        PStr (operating_system desc),
        PInt (average_bandwidth desc),
        PInt (burst_bandwidth desc),
        PInt (observed_bandwidth desc),
        PInt (uptime desc),
        PStr (contact desc)]"

definition newline :: string where
  "newline = [CHR 0x0A]"

definition print_desc :: "descriptor \<Rightarrow> py_error + string" where
  \<comment> \<open>\<^verbatim>\<open>trnns.py\<close>: the text that \<^verbatim>\<open>print\<close> writes, with its line end\<close>
  "print_desc desc =
     then_do (format ''%s,%s,%s,%d,%s,%s,%d,%s''
                [PStr (fingerprint desc),
                 PStr (nickname desc),
                 PStr (address desc),
                 PInt (or_port desc),
                 PStr (tor_version desc),
                 PStr (operating_system desc),
                 PInt (observed_bandwidth desc),
                 PStr (contact desc)])
             (\<lambda>s. Inr (s @ newline))"

text \<open>
  The canonical string in the words of the spec: the thirteen fields in their fixed order,
  nothing between them, an absent directory port read as 0, numbers in decimal. The
  source's \<open>to_str\<close> is compared with it below.
\<close>

definition canonical :: "descriptor \<Rightarrow> string" where
  "canonical desc =
     nickname desc @ address desc @ fmt_d (or_port desc) @
     fmt_d (case dir_port desc of None \<Rightarrow> 0 | Some p \<Rightarrow> p) @
     tor_version desc @ exit_policy desc @
     fmt_d (average_bandwidth desc) @ fmt_d (burst_bandwidth desc) @
     fmt_d (observed_bandwidth desc) @
     operating_system desc @ published desc @ fmt_d (uptime desc) @ contact desc"

text \<open>
  The decimal reading of a numeral, and what "no padding" means for one: an optional minus
  sign, then digits only, the first of them \<open>0\<close> only when it is the whole numeral. These
  two follow the words of the spec and are what the rendering \<open>fmt_d\<close> is compared with.
\<close>

definition digits_value :: "string \<Rightarrow> nat" where
  "digits_value ds = foldl (\<lambda>a c. 10 * a + digit_val c) 0 ds"

definition decimal_value :: "string \<Rightarrow> int" where
  "decimal_value s =
     (case s of
        [] \<Rightarrow> 0
      | c # cs \<Rightarrow> if c = CHR ''-'' then - int (digits_value cs) else int (digits_value s))"

definition unpadded_digits :: "string \<Rightarrow> bool" where
  "unpadded_digits ds = (ds \<noteq> [] \<and> list_all is_digit ds \<and> (hd ds \<noteq> CHR ''0'' \<or> ds = ''0''))"

definition unpadded_decimal :: "string \<Rightarrow> bool" where
  "unpadded_decimal s =
     (case s of
        [] \<Rightarrow> False
      | c # cs \<Rightarrow> if c = CHR ''-'' then unpadded_digits cs else unpadded_digits s)"

section \<open>Edit distance\<close>

text \<open>
  Modelled from the spec: \<^verbatim>\<open>Levenshtein.distance\<close> comes from the \<^verbatim>\<open>python-Levenshtein\<close>
  package, which is not part of the repository. The spec describes it as the minimum number
  of single-character insert, delete and substitute operations that transform one string
  into the other, computable by the classic recurrence over two strings. \<open>distance\<close> is
  that recurrence; \<open>edit_step\<close> and \<open>edits\<close> are the spec's words (one operation, and a
  sequence of \<open>n\<close> operations), against which the recurrence is checked below.
\<close>

fun distance :: "'a list \<Rightarrow> 'a list \<Rightarrow> nat" where
  "distance [] t = length t"
| "distance s [] = length s"
| "distance (x # s) (y # t) =
     min (min (distance s (y # t) + 1) (distance (x # s) t + 1))
         (distance s t + (if x = y then 0 else 1))"

inductive edit_step :: "'a list \<Rightarrow> 'a list \<Rightarrow> bool" where
  insert_char: "edit_step (u @ v) (u @ c # v)"
| delete_char: "edit_step (u @ c # v) (u @ v)"
| substitute_char: "edit_step (u @ c # v) (u @ c' # v)"

inductive edits :: "nat \<Rightarrow> 'a list \<Rightarrow> 'a list \<Rightarrow> bool" where
  edits_none: "edits 0 s s"
| edits_more: "edit_step s t \<Longrightarrow> edits n t u \<Longrightarrow> edits (Suc n) s u"

section \<open>Fetching\<close>

text \<open>
  The downloader is an external collaborator. What it delivers is an input of the model:
  the descriptors that iterating \<^verbatim>\<open>query.run()\<close> yields, the text of the exception that
  ended the iteration if one did, and the printed form of the measured run time.
  A Python \<^verbatim>\<open>dict\<close> is an association list in insertion order with distinct keys:
  assigning to a present key replaces the value in place, assigning to a new key appends
  (\<open>setitem\<close>); \<^verbatim>\<open>d.get(k, None)\<close> is \<open>map_of\<close>, and \<^verbatim>\<open>d[k]\<close> raises \<^verbatim>\<open>KeyError\<close>
  on a missing key (\<open>subscript\<close>).
\<close>

fun setitem :: "('k \<times> 'v) list \<Rightarrow> 'k \<Rightarrow> 'v \<Rightarrow> ('k \<times> 'v) list" where
  "setitem [] k v = [(k, v)]"
| "setitem ((k', v') # d) k v = (if k' = k then (k, v) # d else (k', v') # setitem d k v)"

record query =
  yielded :: "descriptor list"
  failure :: "string option"
  runtime_txt :: string

datatype log_record = Info string | Critical string

definition subscript :: "('k \<times> 'v) list \<Rightarrow> 'k \<Rightarrow> py_error + 'v" where
  "subscript d k = (case map_of d k of None \<Rightarrow> Inl KeyError | Some v \<Rightarrow> Inr v)"

definition store_all :: "descriptor list \<Rightarrow> (string \<times> descriptor) list \<Rightarrow> (string \<times> descriptor) list" where
  \<comment> \<open>\<^verbatim>\<open>for desc in query.run(): descs[desc.fingerprint] = desc\<close>\<close>
  "store_all ds descs = fold (\<lambda>desc descs. setitem descs (fingerprint desc) desc) ds descs"

definition fetch_descriptors :: "query \<Rightarrow> py_error + (log_record list \<times> (string \<times> descriptor) list)" where
  "fetch_descriptors q =
     (let descs = store_all (yielded q) [];
          log1 = (case failure q of
                    None \<Rightarrow> Info (''Query took '' @ runtime_txt q @ '' seconds.'')
                  | Some exc \<Rightarrow> Critical (''Unable to retrieve server descriptors: '' @ exc))
      in then_do (format ''Downloaded %d descs.'' [PInt (int (length descs))])
           (\<lambda>m. Inr ([log1, Info m], descs)))"

section \<open>Ranking\<close>

text \<open>
  The loop that fills \<^verbatim>\<open>dists\<close> is the same text in both files; it calls the file's own
  \<^verbatim>\<open>to_str\<close>, which is the first argument here. The state is the table and the log.
\<close>

fun rank_loop ::
  "(descriptor \<Rightarrow> py_error + string) \<Rightarrow> string \<Rightarrow> int \<Rightarrow> (string \<times> descriptor) list \<Rightarrow>
   (string \<times> nat) list \<times> log_record list \<Rightarrow> py_error + ((string \<times> nat) list \<times> log_record list)" where
  "rank_loop str_of reference_str i [] st = Inr st"
| "rank_loop str_of reference_str i ((fpr, desc) # rest) st =
     then_do (str_of desc) (\<lambda>s.
     then_do (if i mod 1000 = 0
              then then_do (format ''Processed %d descriptors.'' [PInt i])
                     (\<lambda>m. Inr (snd st @ [Info m]))
              else Inr (snd st)) (\<lambda>log'.
     rank_loop str_of reference_str (i + 1) rest
       (setitem (fst st) (fingerprint desc) (distance reference_str s), log')))"

definition sorted_by_distance :: "(string \<times> nat) list \<Rightarrow> (string \<times> nat) list" where
  \<comment> \<open>\<^verbatim>\<open>sorted(dists.items(), key=operator.itemgetter(1))\<close>, a stable sort\<close>
  "sorted_by_distance dists = sort_key snd dists"

section \<open>Presentation in the colour variant\<close>

text \<open>
  \<^verbatim>\<open>termcolor.colored\<close> and \<^verbatim>\<open>tabulate.tabulate\<close> are library functions and the printed
  processing time depends on the clock; the three are parameters of the model.
\<close>

record externals =
  colored :: "string \<Rightarrow> string \<Rightarrow> string"
  tabulate :: "string list list \<Rightarrow> string"
  elapsed_txt :: string

fun str_split :: "char \<Rightarrow> string \<Rightarrow> string list" where
  "str_split sep [] = [[]]"
| "str_split sep (c # cs) =
     (if c = sep then [] # str_split sep cs
      else (case str_split sep cs of
              [] \<Rightarrow> [[c]]
            | w # ws \<Rightarrow> (c # w) # ws))"

fun zip_longest :: "'a list \<Rightarrow> 'b list \<Rightarrow> ('a option \<times> 'b option) list" where
  "zip_longest [] [] = []"
| "zip_longest (x # xs) [] = (Some x, None) # zip_longest xs []"
| "zip_longest [] (y # ys) = (None, Some y) # zip_longest [] ys"
| "zip_longest (x # xs) (y # ys) = (Some x, Some y) # zip_longest xs ys"

definition str_of_char :: "char option \<Rightarrow> string" where
  "str_of_char c = (case c of None \<Rightarrow> ''None'' | Some ch \<Rightarrow> [ch])"

fun chars_loop :: "externals \<Rightarrow> bool \<Rightarrow> (char option \<times> char option) list \<Rightarrow> string \<Rightarrow> string" where
  "chars_loop ext use_colour [] final_string = final_string"
| "chars_loop ext use_colour ((char, ref_char) # rest) final_string =
     chars_loop ext use_colour rest
       (if char = ref_char \<and> use_colour
        then final_string @ colored ext (str_of_char char) ''red''
        else final_string @ (case char of Some ch \<Rightarrow> [ch] | None \<Rightarrow> '' ''))"

fun fields_loop :: "externals \<Rightarrow> bool \<Rightarrow> (string \<times> string) list \<Rightarrow> string \<Rightarrow> string" where
  "fields_loop ext use_colour [] final_string = final_string"
| "fields_loop ext use_colour ((string, ref_string) # rest) final_string =
     fields_loop ext use_colour rest
       (chars_loop ext use_colour (zip_longest string ref_string) final_string @ '','')"

definition format_desc :: "externals \<Rightarrow> descriptor \<Rightarrow> descriptor \<Rightarrow> bool \<Rightarrow> py_error + string list" where
  "format_desc ext desc ref_desc use_colour =
     then_do (desc_to_str desc) (\<lambda>desc_s.
     then_do (desc_to_str ref_desc) (\<lambda>ref_desc_s.
     Inr (str_split CHR '','' (fields_loop ext use_colour
            (zip (str_split CHR '','' desc_s) (str_split CHR '','' ref_desc_s)) []))))"

definition header :: "string list" where
  "header = [''distance'', ''fingerprint'', ''nickname'', ''addr'', ''orport'',
             ''dirport'', ''version'', ''os'', ''avgbw'', ''burstbw'', ''obsbw'',
             ''uptime'', ''contact'']"

definition table_line ::
  "externals \<Rightarrow> (string \<times> descriptor) list \<Rightarrow> string \<Rightarrow> bool \<Rightarrow> string \<times> nat \<Rightarrow>
   py_error + string list" where
  \<comment> \<open>the body of the display loop: one row of the table\<close>
  "table_line ext descs relay_fpr use_colour elem =
     (case elem of (fpr, dist) \<Rightarrow>
        then_do (subscript descs fpr) (\<lambda>desc.
        then_do (subscript descs relay_fpr) (\<lambda>ref_desc.
        then_do (format_desc ext desc ref_desc use_colour) (\<lambda>line.
        then_do (format ''%3d'' [PInt (int dist)]) (\<lambda>cell.
        Inr (cell # line))))))"

fun lines_loop ::
  "externals \<Rightarrow> (string \<times> descriptor) list \<Rightarrow> string \<Rightarrow> bool \<Rightarrow> int \<Rightarrow> int \<Rightarrow>
   (string \<times> nat) list \<Rightarrow> string list list \<Rightarrow> py_error + string list list" where
  "lines_loop ext descs relay_fpr use_colour num_results i [] lines = Inr lines"
| "lines_loop ext descs relay_fpr use_colour num_results i (elem # rest) lines =
     (if i = num_results then Inr lines
      else then_do (table_line ext descs relay_fpr use_colour elem) (\<lambda>row.
           lines_loop ext descs relay_fpr use_colour num_results (i + 1) rest
             (lines @ [row])))"

record outcome =
  logged :: "log_record list"
  stdout :: string
  returned :: int

definition process_descriptors ::
  "externals \<Rightarrow> query \<Rightarrow> string \<Rightarrow> int \<Rightarrow> bool \<Rightarrow> py_error + outcome" where
  "process_descriptors ext q relay_fpr num_results use_colour =
     then_do (fetch_descriptors q) (\<lambda>(log0, descs).
     case map_of descs relay_fpr of
       None \<Rightarrow>
         Inr \<lparr>logged = log0 @ [Critical ''Reference relay not found in descriptors.''],
              stdout = [], returned = 1\<rparr>
     | Some reference \<Rightarrow>
         then_do (to_str reference) (\<lambda>reference_str.
         then_do (rank_loop to_str reference_str 0 descs ([], log0)) (\<lambda>(dists, log1).
         let sorted_dists = sorted_by_distance dists;
             log2 = log1 @ [Info (''Processing time: '' @ elapsed_txt ext)]
         in then_do (lines_loop ext descs relay_fpr use_colour num_results 0 sorted_dists [header])
              (\<lambda>lines. Inr \<lparr>logged = log2, stdout = tabulate ext lines @ newline,
                              returned = 0\<rparr>))))"

section \<open>Presentation in the plain variant\<close>

definition trnns_header :: string where
  "trnns_header = ''distance,fingerprint,nickname,addr,orport,version,os,bw,contact''"

definition print_row :: "(string \<times> descriptor) list \<Rightarrow> string \<times> nat \<Rightarrow> py_error + string" where
  \<comment> \<open>the body of the display loop: the distance, then the descriptor on the same line\<close>
  "print_row descs elem =
     (case elem of (fpr, dist) \<Rightarrow>
        then_do (format ''%3d,'' [PInt (int dist)]) (\<lambda>cell.
        then_do (subscript descs fpr) (\<lambda>desc.
        then_do (print_desc desc) (\<lambda>line.
        Inr (cell @ line)))))"

fun print_loop ::
  "(string \<times> descriptor) list \<Rightarrow> int \<Rightarrow> int \<Rightarrow> (string \<times> nat) list \<Rightarrow> string \<Rightarrow>
   py_error + string" where
  "print_loop descs num_results i [] out = Inr out"
| "print_loop descs num_results i (elem # rest) out =
     (if i = num_results then Inr out
      else then_do (print_row descs elem) (\<lambda>row.
           print_loop descs num_results (i + 1) rest (out @ row)))"

definition trnns_process_descriptors ::
  "string \<Rightarrow> query \<Rightarrow> string \<Rightarrow> int \<Rightarrow> py_error + outcome" where
  "trnns_process_descriptors elapsed q relay_fpr num_results =
     then_do (fetch_descriptors q) (\<lambda>(log0, descs).
     case map_of descs relay_fpr of
       None \<Rightarrow>
         Inr \<lparr>logged = log0 @ [Critical ''Reference relay not found in descriptors.''],
              stdout = [], returned = 1\<rparr>
     | Some reference \<Rightarrow>
         then_do (trnns_to_str reference) (\<lambda>reference_str.
         then_do (rank_loop trnns_to_str reference_str 0 descs ([], log0)) (\<lambda>(dists, log1).
         let sorted_dists = sorted_by_distance dists;
             log2 = log1 @ [Info (''Processing time: '' @ elapsed)]
         in then_do (print_loop descs num_results 0 sorted_dists (trnns_header @ newline))
              (\<lambda>out. Inr \<lparr>logged = log2, stdout = out, returned = 0\<rparr>))))"

section \<open>Notions used to state the properties\<close>

text \<open>
  A fetched mapping is keyed by fingerprint: the keys are distinct and each descriptor is
  stored under its own fingerprint.
\<close>

definition keyed :: "(string \<times> descriptor) list \<Rightarrow> bool" where
  "keyed descs = (distinct (map fst descs) \<and> list_all (\<lambda>(k, d). fingerprint d = k) descs)"

text \<open>
  The ranking in the words of the spec: the distance between the canonical string of the
  reference and that of every descriptor of the mapping, sorted ascending by distance.
\<close>

definition distance_table :: "descriptor \<Rightarrow> (string \<times> descriptor) list \<Rightarrow> (string \<times> nat) list" where
  "distance_table reference descs =
     map (\<lambda>(fpr, desc). (fpr, distance (canonical reference) (canonical desc))) descs"

definition ranking :: "descriptor \<Rightarrow> (string \<times> descriptor) list \<Rightarrow> (string \<times> nat) list" where
  "ranking reference descs = sort_key snd (distance_table reference descs)"

text \<open>
  The fields that \<open>desc_to_str\<close> shows, and a field padded with spaces to the length of
  the reference's field.
\<close>

definition display_fields :: "descriptor \<Rightarrow> string list" where
  "display_fields d =
     [take 8 (fingerprint d), nickname d, address d, fmt_d (or_port d),
      fmt_d (dirport_to_int (dir_port d)), tor_version d, operating_system d,
      fmt_d (average_bandwidth d), fmt_d (burst_bandwidth d), fmt_d (observed_bandwidth d),
      fmt_d (uptime d), contact d]"

definition pad_to :: "string \<Rightarrow> string \<Rightarrow> string" where
  "pad_to ref_string string = string @ replicate (length ref_string - length string) CHR '' ''"

definition comma_free :: "descriptor \<Rightarrow> bool" where
  "comma_free d =
     list_all (\<lambda>f. CHR '','' \<notin> set f)
       [take 8 (fingerprint d), nickname d, address d, tor_version d, operating_system d,
        contact d]"

text \<open>Concrete inputs on which the properties are exercised.\<close>

definition example_desc :: "string \<Rightarrow> string \<Rightarrow> descriptor" where
  "example_desc fpr c =
     \<lparr>fingerprint = fpr, nickname = ''relay'', address = ''10.0.0.1'', or_port = 9001,
      dir_port = None, tor_version = ''0.2.7.6'', exit_policy = ''reject *:*'',
      average_bandwidth = 1024, burst_bandwidth = 2048, observed_bandwidth = 512,
      operating_system = ''Linux'', published = ''2016-01-01 00:00:00'', uptime = 3600,
      contact = c\<rparr>"

definition scenario_query :: query where
  "scenario_query =
     \<lparr>yielded = [example_desc ''A'' [], example_desc ''B'' ''xyz'', example_desc ''C'' ''x''],
      failure = None, runtime_txt = ''1.50''\<rparr>"

definition scenario_descs :: "(string \<times> descriptor) list" where
  "scenario_descs =
     [(''A'', example_desc ''A'' []), (''B'', example_desc ''B'' ''xyz''),
      (''C'', example_desc ''C'' ''x'')]"

definition scenario_log :: "log_record list" where
  "scenario_log = [Info ''Query took 1.50 seconds.'', Info ''Downloaded 3 descs.'']"

definition example_ext :: externals where
  "example_ext =
     \<lparr>colored = (\<lambda>text colour. ''<'' @ text @ ''>''),
      tabulate = (\<lambda>lines. concat (map (\<lambda>row. concat (map (\<lambda>cell. cell @ '' '') row) @ newline) lines)),
      elapsed_txt = ''0.001''\<rparr>"

text \<open>
  What an emitted row must be for an entry of the ranking. In the colour variant: the
  entry's fingerprint is a key of the mapping, the distance is the one between the
  canonical strings, and the row is the distance in a field of width 3 followed by the
  strings that \<open>format_desc\<close> returns for that descriptor against the reference; for
  comma-free descriptors without colour these strings are the displayed fields, padded,
  and a last empty string. In the plain variant: the line is the distance, the whole
  fingerprint and the seven further fields, comma-separated, and the line end.
\<close>

definition emitted_table_row ::
  "externals \<Rightarrow> (string \<times> descriptor) list \<Rightarrow> descriptor \<Rightarrow> bool \<Rightarrow>
   string \<times> nat \<Rightarrow> string list \<Rightarrow> bool" where
  "emitted_table_row ext descs reference use_colour elem row =
     (\<exists>desc line.
        map_of descs (fst elem) = Some desc \<and> fingerprint desc = fst elem
      \<and> snd elem = distance (canonical reference) (canonical desc)
      \<and> format_desc ext desc reference use_colour = Inr line
      \<and> row = rjust 3 (fmt_d (int (snd elem))) # line
      \<and> (\<not> use_colour \<and> comma_free desc \<and> comma_free reference \<longrightarrow>
           line = map (\<lambda>(string, ref_string).
                         string @ replicate (length ref_string - length string) CHR '' '')
                    (zip (display_fields desc) (display_fields reference)) @ [[]]))"

definition emitted_text_row ::
  "(string \<times> descriptor) list \<Rightarrow> descriptor \<Rightarrow> string \<times> nat \<Rightarrow> string \<Rightarrow> bool" where
  "emitted_text_row descs reference elem line =
     (\<exists>desc.
        map_of descs (fst elem) = Some desc \<and> fingerprint desc = fst elem
      \<and> snd elem = distance (canonical reference) (canonical desc)
      \<and> line = rjust 3 (fmt_d (int (snd elem))) @ '','' @ fingerprint desc @ '','' @
               nickname desc @ '','' @ address desc @ '','' @ fmt_d (or_port desc) @ '','' @
               tor_version desc @ '','' @ operating_system desc @ '','' @
               fmt_d (observed_bandwidth desc) @ '','' @ contact desc @ newline)"

section \<open>Formatting never fails on a descriptor\<close>

lemmas format_simps = format_def is_digit_def convert_def py_str_def rjust_def digit_val_def

lemma to_str_eq: "to_str d = Inr (canonical d)"
  by (simp add: to_str_def canonical_def dirport_to_int_def format_simps)

lemma inline_dirport:
  "(let p = py_opt_int x; p = (if p = PNone then PInt 0 else p) in f p) = f (PInt (dirport_to_int x))"
  by (cases x) (simp_all add: py_opt_int_def dirport_to_int_def)

lemma trnns_to_str_eq: "trnns_to_str d = Inr (canonical d)"
  unfolding trnns_to_str_def inline_dirport
  by (simp add: canonical_def dirport_to_int_def format_simps)

lemma format_cell: "format ''%3d'' [PInt n] = Inr (rjust 3 (fmt_d n))"
  by (simp add: format_def is_digit_def convert_def digit_val_def)

lemma format_cell_comma: "format ''%3d,'' [PInt n] = Inr (rjust 3 (fmt_d n) @ '','')"
  by (simp add: format_def is_digit_def convert_def digit_val_def)

lemma format_downloaded: "format ''Downloaded %d descs.'' [PInt n] = Inr (''Downloaded '' @ fmt_d n @ '' descs.'')"
  by (simp add: format_simps)

lemma format_processed: "format ''Processed %d descriptors.'' [PInt n] = Inr (''Processed '' @ fmt_d n @ '' descriptors.'')"
  by (simp add: format_simps)

lemma digit_val_digit_char: "n < 10 \<Longrightarrow> digit_val (digit_char n) = n"
proof -
  assume "n < 10"
  then have "n \<in> {0,1,2,3,4,5,6,7,8,9}" by auto
  then show ?thesis by (auto simp: digit_val_def digit_char_def)
qed

lemma is_digit_digit_char_lt: "n < 10 \<Longrightarrow> is_digit (digit_char n)"
proof -
  assume "n < 10"
  then have "n \<in> {0,1,2,3,4,5,6,7,8,9}" by auto
  then show ?thesis by (auto simp: is_digit_def digit_char_def)
qed

lemma is_digit_digit_char: "is_digit (digit_char n)"
  using is_digit_digit_char_lt [of "n mod 10"] by (simp add: digit_char_def)

lemma digit_char_mod: "digit_char (n mod 10) = digit_char n"
  by (simp add: digit_char_def)

lemma digits_value_snoc: "digits_value (ds @ [c]) = 10 * digits_value ds + digit_val c"
  by (simp add: digits_value_def)

lemma digits_value_dec_nat: "digits_value (dec_nat n) = n"
proof (induction n rule: dec_nat.induct)
  case (1 n)
  show ?case
  proof (cases "n < 10")
    case True
    then show ?thesis by (simp add: dec_nat.simps [of n] digits_value_def digit_val_digit_char)
  next
    case False
    have "digit_val (digit_char n) = n mod 10"
      using digit_val_digit_char [of "n mod 10"] by (simp add: digit_char_mod)
    with False 1 show ?thesis by (simp add: dec_nat.simps [of n] digits_value_snoc)
  qed
qed

lemma dec_nat_not_Nil: "dec_nat n \<noteq> []"
  by (simp add: dec_nat.simps [of n])

lemma dec_nat_digits: "list_all is_digit (dec_nat n)"
proof (induction n rule: dec_nat.induct)
  case (1 n)
  then show ?case
    by (cases "n < 10") (simp_all add: dec_nat.simps [of n] is_digit_digit_char)
qed

lemma digit_char_zero: "n < 10 \<Longrightarrow> digit_char n = CHR ''0'' \<Longrightarrow> n = 0"
proof -
  assume "n < 10" and z: "digit_char n = CHR ''0''"
  then have "n \<in> {0,1,2,3,4,5,6,7,8,9}" by auto
  with z show ?thesis by (auto simp: digit_char_def)
qed

lemma hd_dec_nat: "hd (dec_nat n) = CHR ''0'' \<Longrightarrow> n = 0"
proof (induction n rule: dec_nat.induct)
  case (1 n)
  show ?case
  proof (cases "n < 10")
    case True
    with 1(2) show ?thesis by (simp add: dec_nat.simps [of n] digit_char_zero)
  next
    case False
    then have "hd (dec_nat n) = hd (dec_nat (n div 10))"
      by (simp add: dec_nat.simps [of n] dec_nat_not_Nil)
    with 1 False have "n div 10 = 0" by simp
    with False show ?thesis by simp
  qed
qed

lemma dec_nat_0: "dec_nat 0 = ''0''"
  by (simp add: dec_nat.simps [of 0] digit_char_def)

lemma unpadded_dec_nat: "unpadded_digits (dec_nat n)"
  unfolding unpadded_digits_def using hd_dec_nat [of n]
  by (auto simp: dec_nat_not_Nil dec_nat_digits dec_nat_0)

lemma hd_dec_nat_not_minus: "hd (dec_nat n) \<noteq> CHR ''-''"
proof -
  have "is_digit (hd (dec_nat n))"
    using dec_nat_digits [of n] dec_nat_not_Nil [of n] by (cases "dec_nat n") simp_all
  then show ?thesis by (auto simp: is_digit_def)
qed

lemma decimal_value_fmt_d: "decimal_value (fmt_d i) = i"
proof (cases "i < 0")
  case True
  then show ?thesis by (simp add: fmt_d_def decimal_value_def digits_value_dec_nat)
next
  case False
  obtain c cs where e: "dec_nat (nat i) = c # cs" using dec_nat_not_Nil [of "nat i"] by (cases "dec_nat (nat i)") auto
  with hd_dec_nat_not_minus [of "nat i"] have "c \<noteq> CHR ''-''" by simp
  with False e digits_value_dec_nat [of "nat i"] show ?thesis by (simp add: fmt_d_def decimal_value_def)
qed

lemma unpadded_fmt_d: "unpadded_decimal (fmt_d i)"
proof (cases "i < 0")
  case True
  then show ?thesis by (simp add: fmt_d_def unpadded_decimal_def unpadded_dec_nat)
next
  case False
  obtain c cs where e: "dec_nat (nat i) = c # cs" using dec_nat_not_Nil [of "nat i"] by (cases "dec_nat (nat i)") auto
  with hd_dec_nat_not_minus [of "nat i"] have "c \<noteq> CHR ''-''" by simp
  with False e unpadded_dec_nat [of "nat i"] show ?thesis by (simp add: fmt_d_def unpadded_decimal_def)
qed

section \<open>The edit distance is a metric and counts edit operations\<close>

lemma distance_Nil_right: "distance s [] = length s"
  by (cases s) simp_all

lemma distance_refl: "distance s s = 0"
  by (induction s) simp_all

lemma distance_commute: "distance s t = distance t s"
  by (induction s t rule: distance.induct) (simp_all add: distance_Nil_right min.commute)

lemma length_le_distance: "length t \<le> length s + distance s t"
  by (induction s t rule: distance.induct) (auto simp: min_def)

lemma length_le_distance': "length s \<le> length t + distance s t"
  using length_le_distance [of s t] by (simp add: distance_commute)

lemma distance_le_lengths: "distance s t \<le> length s + length t"
  by (induction s t rule: distance.induct) (auto simp: min_def)

text \<open>
  The triangle inequality, by induction on the total length. With all three strings
  non-empty, each of the two distances on the right is one of the three alternatives of the
  recurrence, and every combination is covered by an alternative for the left-hand side
  and the hypothesis at shorter strings.
\<close>

lemma distance_triangle: "distance a c \<le> distance a b + distance b c"
proof (induction "length a + length b + length c" arbitrary: a b c rule: less_induct)
  case less
  show ?case
  proof (cases a)
    case Nil
    then show ?thesis using length_le_distance [of c b] by simp
  next
    case (Cons x a')
    note a = this
    show ?thesis
    proof (cases b)
      case Nil
      then show ?thesis using distance_le_lengths [of a c] by (simp add: distance_Nil_right)
    next
      case (Cons y b')
      note b = this
      show ?thesis
      proof (cases c)
        case Nil
        then show ?thesis using length_le_distance' [of a b] by (simp add: distance_Nil_right)
      next
        case (Cons z c')
        note c = this
        have 1: "distance a' c \<le> distance a' b + distance b c"
          and 2: "distance a c' \<le> distance a b + distance b c'"
          and 3: "distance a c \<le> distance a b' + distance b' c"
          and 4: "distance a c' \<le> distance a b' + distance b' c'"
          and 5: "distance a' c \<le> distance a' b' + distance b' c"
          and 6: "distance a' c' \<le> distance a' b' + distance b' c'"
          by (rule less, simp add: a b c)+
        have ac1: "distance a c \<le> distance a' c + 1"
          and ac2: "distance a c \<le> distance a c' + 1"
          and ac3: "distance a c \<le> distance a' c' + (if x = z then 0 else 1)"
          unfolding a c by simp_all
        have ab: "distance a b = distance a' b + 1 \<or> distance a b = distance a b' + 1
                  \<or> distance a b = distance a' b' + (if x = y then 0 else 1)"
          unfolding a b by (simp add: min_def)
        have bc: "distance b c = distance b' c + 1 \<or> distance b c = distance b c' + 1
                  \<or> distance b c = distance b' c' + (if y = z then 0 else 1)"
          unfolding b c by (simp add: min_def)
        from ab bc show ?thesis
          using 1 2 3 4 5 6 ac1 ac2 ac3 by (auto split: if_splits)
      qed
    qed
  qed
qed

lemma distance_insert_head: "distance v (c # v) \<le> 1"
  by (cases v) (simp_all add: distance_refl)

lemma distance_drop_head: "distance s t \<le> distance (x # s) t + 1"
  using distance_insert_head [of s x] distance_triangle [of s t "x # s"] by simp

lemma distance_drop_head': "distance s t \<le> distance s (y # t) + 1"
  using distance_drop_head [of t s y] by (simp add: distance_commute)

text \<open>Equal first characters can be dropped; this also makes concrete distances cheap.\<close>

lemma distance_Cons_Cons:
  "distance (x # s) (y # t) =
     (if x = y then distance s t
      else 1 + min (min (distance s (y # t)) (distance (x # s) t)) (distance s t))"
  using distance_drop_head [of s "y # t" x] distance_drop_head' [of s t y]
    distance_drop_head' [of "x # s" t y] distance_drop_head [of s t x]
  by (auto simp: min_def)

lemma edit_step_distance: "edit_step s t \<Longrightarrow> distance s t \<le> 1"
proof (induction rule: edit_step.induct)
  case (insert_char u v c)
  have "distance v (c # v) \<le> 1" by (rule distance_insert_head)
  then show ?case by (induction u) (simp_all add: distance_Cons_Cons del: distance.simps)
next
  case (delete_char u c v)
  have "distance (c # v) v \<le> 1" using distance_insert_head [of v c] by (simp add: distance_commute)
  then show ?case by (induction u) (simp_all add: distance_Cons_Cons del: distance.simps)
next
  case (substitute_char u c v c')
  have "distance (c # v) (c' # v) \<le> 1" by (simp add: distance_refl)
  then show ?case by (induction u) (simp_all add: distance_Cons_Cons del: distance.simps)
qed

lemma edits_distance: "edits n s t \<Longrightarrow> distance s t \<le> n"
proof (induction rule: edits.induct)
  case (edits_none s)
  show ?case by (simp add: distance_refl)
next
  case (edits_more s t n u)
  then show ?case
    using distance_triangle [of s u t] edit_step_distance [of s t] by simp
qed

lemma edit_step_Cons: "edit_step s t \<Longrightarrow> edit_step (x # s) (x # t)"
proof (induction rule: edit_step.induct)
  case (insert_char u v c)
  show ?case using edit_step.insert_char [of "x # u" v c] by simp
next
  case (delete_char u c v)
  show ?case using edit_step.delete_char [of "x # u" c v] by simp
next
  case (substitute_char u c v c')
  show ?case using edit_step.substitute_char [of "x # u" c v c'] by simp
qed

lemma edits_Cons: "edits n s t \<Longrightarrow> edits n (x # s) (x # t)"
  by (induction rule: edits.induct) (auto intro: edits.intros edit_step_Cons)

lemma step_insert_front: "edit_step s (c # s)"
  using edit_step.insert_char [of "[]" s c] by simp

lemma step_delete_front: "edit_step (c # s) s"
  using edit_step.delete_char [of "[]" c s] by simp

lemma step_substitute_front: "edit_step (c # s) (c' # s)"
  using edit_step.substitute_char [of "[]" c s c'] by simp

lemma edits_distance_exists: "edits (distance s t) s t"
proof (induction s t rule: distance.induct)
  case (1 t)
  show ?case
  proof (induction t)
    case Nil
    show ?case by (simp add: edits_none)
  next
    case (Cons y t)
    have "edits (Suc (length t)) [] (y # t)"
      using step_insert_front [of "[]" y] edits_Cons [of "length t" "[]" t y] Cons
      by (auto intro: edits_more)
    then show ?case by simp
  qed
next
  case (2 x s)
  show ?case
  proof (induction s arbitrary: x)
    case Nil
    show ?case using step_delete_front [of x "[]"] by (auto intro: edits.intros)
  next
    case (Cons a s)
    show ?case using step_delete_front [of x "a # s"] Cons [of a] by (auto intro: edits.intros)
  qed
next
  case (3 x s y t)
  have del: "edits (distance s (y # t) + 1) (x # s) (y # t)"
    using step_delete_front [of x s] "3.IH"(1) by (auto intro: edits_more)
  have ins: "edits (distance (x # s) t + 1) (x # s) (y # t)"
    using step_insert_front [of "x # s" y] edits_Cons [OF "3.IH"(2), of y] by (auto intro: edits_more)
  have sub: "edits (distance s t + (if x = y then 0 else 1)) (x # s) (y # t)"
    using step_substitute_front [of x s y] edits_Cons [OF "3.IH"(3), of y]
    by (auto intro: edits_more edits_Cons "3.IH"(3))
  show ?case using del ins sub by (simp add: min_def del: One_nat_def)
qed

text \<open>
  The recurrence is the spec's minimum: \<open>distance s t\<close> operations transform \<open>s\<close> into
  \<open>t\<close>, and no sequence of operations that does so is shorter.
\<close>

lemma distance_least_edits: "edits (distance s t) s t \<and> (\<forall>n. edits n s t \<longrightarrow> distance s t \<le> n)"
  using edits_distance_exists edits_distance by blast

section \<open>The fetched mapping and the distance table\<close>

lemma setitem_fresh: "k \<notin> fst ` set d \<Longrightarrow> setitem d k v = d @ [(k, v)]"
  by (induction d k v rule: setitem.induct) auto

lemma set_setitem: "set (setitem d k v) \<subseteq> insert (k, v) (set d)"
  by (induction d k v rule: setitem.induct) auto

lemma keys_setitem:
  "map fst (setitem d k v) = (if k \<in> fst ` set d then map fst d else map fst d @ [k])"
  by (induction d k v rule: setitem.induct) (auto simp: image_iff)

lemma keyed_setitem: "keyed descs \<Longrightarrow> keyed (setitem descs (fingerprint d) d)"
proof -
  assume k: "keyed descs"
  have "set (setitem descs (fingerprint d) d) \<subseteq> insert (fingerprint d, d) (set descs)"
    by (rule set_setitem)
  with k show ?thesis unfolding keyed_def list_all_iff by (auto simp: keys_setitem)
qed

lemma keyed_store_all: "keyed descs \<Longrightarrow> keyed (store_all ds descs)"
  unfolding store_all_def by (induction ds arbitrary: descs) (simp_all add: keyed_setitem)

lemma keyed_fetched: "keyed (store_all ds [])"
  by (rule keyed_store_all) (simp add: keyed_def)

lemma fetch_descriptors_eq:
  "\<exists>log0. fetch_descriptors q = Inr (log0, store_all (yielded q) [])"
  by (simp add: fetch_descriptors_def Let_def format_downloaded)

lemma fetch_descriptors_keyed: "fetch_descriptors q = Inr (log0, descs) \<Longrightarrow> keyed descs"
  using fetch_descriptors_eq [of q] keyed_fetched by auto

text \<open>
  The loop visits every item. On items with distinct keys that are the fingerprints of
  their descriptors and are not yet in the table, each visit appends one entry.
\<close>

lemma rank_loop_eq:
  assumes "\<And>d. str_of d = Inr (canonical d)"
  shows "distinct (map fst items) \<Longrightarrow> list_all (\<lambda>(k, d). fingerprint d = k) items \<Longrightarrow>
    fst ` set items \<inter> fst ` set (fst st) = {} \<Longrightarrow>
    \<exists>log'. rank_loop str_of r i items st =
      Inr (fst st @ map (\<lambda>(fpr, desc). (fpr, distance r (canonical desc))) items, log')"
proof (induction items arbitrary: i st)
  case Nil
  show ?case by (cases st) simp
next
  case (Cons a items)
  obtain fpr desc where a: "a = (fpr, desc)" by (cases a)
  with Cons.prems have f: "fingerprint desc = fpr" by simp
  define dists' where "dists' = setitem (fst st) fpr (distance r (canonical desc))"
  have d': "dists' = fst st @ [(fpr, distance r (canonical desc))]"
    unfolding dists'_def using Cons.prems(3) a by (intro setitem_fresh) auto
  have "\<exists>log1. (if i mod 1000 = 0
              then then_do (format ''Processed %d descriptors.'' [PInt i])
                     (\<lambda>m. Inr (snd st @ [Info m]))
              else Inr (snd st)) = Inr log1"
    by (simp add: format_processed)
  then obtain log1 where l: "(if i mod 1000 = 0
              then then_do (format ''Processed %d descriptors.'' [PInt i])
                     (\<lambda>m. Inr (snd st @ [Info m]))
              else Inr (snd st)) = Inr log1" ..
  have "\<exists>log'. rank_loop str_of r (i + 1) items (dists', log1) =
      Inr (fst (dists', log1) @ map (\<lambda>(fpr, desc). (fpr, distance r (canonical desc))) items, log')"
    using Cons.prems a d' by (intro Cons.IH) auto
  then show ?case
    using l by (simp add: a assms [of desc] f dists'_def [symmetric] d')
qed

lemma rank_loop_table:
  assumes "\<And>d. str_of d = Inr (canonical d)" and "keyed descs"
  shows "\<exists>log1. rank_loop str_of (canonical reference) 0 descs ([], log0) =
           Inr (distance_table reference descs, log1)"
  using rank_loop_eq [of str_of descs "([], log0)" "canonical reference" 0] assms
  by (simp add: keyed_def distance_table_def)

section \<open>The display loops\<close>

lemma subscript_Some: "map_of d k = Some v \<Longrightarrow> subscript d k = Inr v"
  by (simp add: subscript_def)

lemma desc_to_str_eq:
  "desc_to_str d = Inr (take 8 (fingerprint d) @ '','' @ nickname d @ '','' @ address d @ '','' @
     fmt_d (or_port d) @ '','' @ fmt_d (dirport_to_int (dir_port d)) @ '','' @
     tor_version d @ '','' @ operating_system d @ '','' @
     fmt_d (average_bandwidth d) @ '','' @ fmt_d (burst_bandwidth d) @ '','' @
     fmt_d (observed_bandwidth d) @ '','' @ fmt_d (uptime d) @ '','' @ contact d)"
  by (simp add: desc_to_str_def format_simps)

lemma print_desc_eq:
  "print_desc d = Inr (fingerprint d @ '','' @ nickname d @ '','' @ address d @ '','' @
     fmt_d (or_port d) @ '','' @ tor_version d @ '','' @ operating_system d @ '','' @
     fmt_d (observed_bandwidth d) @ '','' @ contact d @ newline)"
  by (simp add: print_desc_def format_simps)

lemma format_desc_ok: "\<exists>line. format_desc ext d r c = Inr line"
  by (simp add: format_desc_def desc_to_str_eq)

lemma table_line_ok:
  "map_of descs fpr = Some d \<Longrightarrow> map_of descs relay = Some r \<Longrightarrow>
   \<exists>row. table_line ext descs relay c (fpr, n) = Inr row"
  using format_desc_ok [of ext d r c]
  by (auto simp: table_line_def subscript_Some format_cell)

lemma print_row_ok:
  "map_of descs fpr = Some d \<Longrightarrow> \<exists>row. print_row descs (fpr, n) = Inr row"
  by (simp add: print_row_def subscript_Some format_cell_comma print_desc_eq)

lemma all_results: "\<forall>e \<in> set es. \<exists>r. body e = Inr r \<Longrightarrow> \<exists>rs. map body es = map Inr rs"
proof (induction es)
  case Nil
  show ?case by simp
next
  case (Cons e es)
  then obtain r rs where "body e = Inr r" "map body es = map Inr rs" by auto
  then have "map body (e # es) = map Inr (r # rs)" by simp
  then show ?case by blast
qed

lemma lines_loop_eq:
  "map (table_line ext descs relay c) es = map Inr rs \<Longrightarrow>
   lines_loop ext descs relay c K i es lines =
     Inr (lines @ (if i \<le> K then take (nat (K - i)) rs else rs))"
proof (induction es arbitrary: i lines rs)
  case Nil
  then show ?case by simp
next
  case (Cons e es)
  then obtain r rs' where rs: "rs = r # rs'" and r: "table_line ext descs relay c e = Inr r"
    and rest: "map (table_line ext descs relay c) es = map Inr rs'" by (cases rs) auto
  show ?case
  proof (cases "i = K")
    case True
    then show ?thesis by simp
  next
    case False
    have "nat (K - i) = Suc (nat (K - (i + 1)))" if "i \<le> K" using that False by simp
    with False show ?thesis using Cons.IH [OF rest, of "i + 1" "lines @ [r]"]
      by (simp add: r rs)
  qed
qed

lemma print_loop_eq:
  "map (print_row descs) es = map Inr rs \<Longrightarrow>
   print_loop descs K i es out =
     Inr (out @ concat (if i \<le> K then take (nat (K - i)) rs else rs))"
proof (induction es arbitrary: i out rs)
  case Nil
  then show ?case by simp
next
  case (Cons e es)
  then obtain r rs' where rs: "rs = r # rs'" and r: "print_row descs e = Inr r"
    and rest: "map (print_row descs) es = map Inr rs'" by (cases rs) auto
  show ?case
  proof (cases "i = K")
    case True
    then show ?thesis by simp
  next
    case False
    have "nat (K - i) = Suc (nat (K - (i + 1)))" if "i \<le> K" using that False by simp
    with False show ?thesis using Cons.IH [OF rest, of "i + 1" "out @ r"]
      by (simp add: r rs)
  qed
qed

section \<open>The whole run\<close>

lemma ranking_keys:
  assumes "e \<in> set (ranking reference descs)"
  shows "\<exists>d. map_of descs (fst e) = Some d"
proof -
  from assms have "e \<in> set (distance_table reference descs)" by (simp add: ranking_def)
  then have "fst e \<in> fst ` set descs" by (force simp: distance_table_def)
  then show ?thesis by (cases "map_of descs (fst e)") (auto simp: map_of_eq_None_iff)
qed

lemma table_rows_exist:
  assumes "map_of descs relay = Some r"
  shows "\<exists>rows. map (table_line ext descs relay c) (ranking reference descs) = map Inr rows"
proof (rule all_results, rule ballI)
  fix e assume e: "e \<in> set (ranking reference descs)"
  obtain fpr n where p: "e = (fpr, n)" by (cases e)
  from ranking_keys [OF e] p obtain d where "map_of descs fpr = Some d" by auto
  from table_line_ok [OF this assms] p
  show "\<exists>row. table_line ext descs relay c e = Inr row" by simp
qed

lemma print_rows_exist:
  "\<exists>rows. map (print_row descs) (ranking reference descs) = map Inr rows"
proof (rule all_results, rule ballI)
  fix e assume e: "e \<in> set (ranking reference descs)"
  obtain fpr n where p: "e = (fpr, n)" by (cases e)
  from ranking_keys [OF e] p obtain d where "map_of descs fpr = Some d" by auto
  from print_row_ok [OF this] p
  show "\<exists>row. print_row descs e = Inr row" by simp
qed

lemma process_descriptors_found:
  assumes f: "fetch_descriptors q = Inr (log0, descs)"
    and r: "map_of descs relay = Some reference"
    and rows: "map (table_line ext descs relay c) (ranking reference descs) = map Inr rows"
  shows "\<exists>log. process_descriptors ext q relay K c =
           Inr \<lparr>logged = log,
                stdout = tabulate ext (header # (if 0 \<le> K then take (nat K) rows else rows)) @ newline,
                returned = 0\<rparr>"
proof -
  from f have k: "keyed descs" by (rule fetch_descriptors_keyed)
  from rank_loop_table [of to_str descs reference log0, OF to_str_eq k]
  obtain log1 where l: "rank_loop to_str (canonical reference) 0 descs ([], log0) =
           Inr (distance_table reference descs, log1)" ..
  show ?thesis
    unfolding process_descriptors_def
    by (simp add: f r to_str_eq l sorted_by_distance_def ranking_def [symmetric]
        lines_loop_eq [OF rows])
qed

lemma trnns_process_descriptors_found:
  assumes f: "fetch_descriptors q = Inr (log0, descs)"
    and r: "map_of descs relay = Some reference"
    and rows: "map (print_row descs) (ranking reference descs) = map Inr rows"
  shows "\<exists>log. trnns_process_descriptors elapsed q relay K =
           Inr \<lparr>logged = log,
                stdout = trnns_header @ newline @ concat (if 0 \<le> K then take (nat K) rows else rows),
                returned = 0\<rparr>"
proof -
  from f have k: "keyed descs" by (rule fetch_descriptors_keyed)
  from rank_loop_table [of trnns_to_str descs reference log0, OF trnns_to_str_eq k]
  obtain log1 where l: "rank_loop trnns_to_str (canonical reference) 0 descs ([], log0) =
           Inr (distance_table reference descs, log1)" ..
  show ?thesis
    unfolding trnns_process_descriptors_def
    by (simp add: f r trnns_to_str_eq l sorted_by_distance_def ranking_def [symmetric]
        print_loop_eq [OF rows])
qed

lemma process_descriptors_missing:
  assumes f: "fetch_descriptors q = Inr (log0, descs)"
    and r: "map_of descs relay = None"
  shows "process_descriptors ext q relay K c =
           Inr \<lparr>logged = log0 @ [Critical ''Reference relay not found in descriptors.''],
                stdout = [], returned = 1\<rparr>"
    and "trnns_process_descriptors elapsed q relay K =
           Inr \<lparr>logged = log0 @ [Critical ''Reference relay not found in descriptors.''],
                stdout = [], returned = 1\<rparr>"
  by (simp_all add: process_descriptors_def trnns_process_descriptors_def f r)

section \<open>The ranking and the example inputs\<close>

lemma dec_nat_numeral:
  "dec_nat (numeral k) =
     (if (numeral k :: nat) < 10 then [digit_char (numeral k)]
      else dec_nat (numeral k div 10) @ [digit_char (numeral k)])"
  by (rule dec_nat.simps)

lemma dec_nat_one: "dec_nat (Suc 0) = ''1''"
  by (simp add: dec_nat.simps [of "Suc 0"] digit_char_def)

lemmas eval_simps = fmt_d_def dec_nat_numeral dec_nat_0 dec_nat_one digit_char_def

lemma scenario_fetch: "fetch_descriptors scenario_query = Inr (scenario_log, scenario_descs)"
  by code_simp

lemma canonical_example:
  "canonical (example_desc f c) =
     ''relay10.0.0.1900100.2.7.6reject *:*10242048512Linux2016-01-01 00:00:003600'' @ c"
  by (simp add: canonical_def example_desc_def eval_simps)

lemma distance_prefix: "distance (p @ s) (p @ t) = distance s t"
  by (induction p) (simp_all add: distance_Cons_Cons del: distance.simps)

lemma distance_example:
  "distance (canonical (example_desc f [])) (canonical (example_desc g c)) = length c"
  unfolding canonical_example distance_prefix by simp

lemma scenario_table:
  "distance_table (example_desc ''A'' []) scenario_descs = [(''A'', 0), (''B'', 3), (''C'', 1)]"
  by (simp add: distance_table_def scenario_descs_def distance_example)

lemma scenario_ranking:
  "ranking (example_desc ''A'' []) scenario_descs = [(''A'', 0), (''C'', 1), (''B'', 3)]"
  by (simp add: ranking_def scenario_table)

lemma scenario_reference: "map_of scenario_descs ''A'' = Some (example_desc ''A'' [])"
  by (simp add: scenario_descs_def)

lemma sorted_ranking: "sorted (map snd (ranking reference descs))"
  by (simp add: ranking_def)

lemma set_ranking: "set (ranking reference descs) = set (distance_table reference descs)"
  by (simp add: ranking_def)

lemma length_ranking: "length (ranking reference descs) = length descs"
  by (simp add: ranking_def distance_table_def)

lemma keys_distance_table: "map fst (distance_table reference descs) = map fst descs"
  by (simp add: distance_table_def case_prod_unfold)

lemma distinct_keys_ranking:
  "distinct (map fst descs) \<Longrightarrow> distinct (map fst (ranking reference descs))"
proof -
  assume "distinct (map fst descs)"
  then have "distinct (map fst (distance_table reference descs))" by (simp add: keys_distance_table)
  then show ?thesis by (simp add: distinct_map ranking_def)
qed

lemma set_keys_ranking: "fst ` set (ranking reference descs) = fst ` set descs"
proof -
  have "fst ` set (distance_table reference descs) = set (map fst (distance_table reference descs))"
    by simp
  then show ?thesis unfolding keys_distance_table by (simp add: set_ranking)
qed

lemma reference_in_ranking:
  assumes "map_of descs relay = Some reference"
  shows "(relay, 0) \<in> set (ranking reference descs)"
proof -
  from assms have "(relay, reference) \<in> set descs" by (rule map_of_SomeD)
  then have "(relay, distance (canonical reference) (canonical reference)) \<in> set (distance_table reference descs)"
    by (force simp: distance_table_def)
  then show ?thesis by (simp add: set_ranking distance_refl)
qed

section \<open>Canonicalization and the metric\<close>

text \<open>
  C6: for every descriptor, \<open>to_str\<close> (in both files) returns the concatenation, in this
  fixed order and with nothing between the fields, of nickname, address, or-port, dir-port
  (0 when absent), version, exit policy, average, burst and observed bandwidth, operating
  system, published timestamp, uptime and contact. Each number is rendered by \<open>fmt_d\<close>,
  which is an unpadded base-10 numeral that reads back as the number. The result is a function
  of these fields alone, so the same descriptor always gives the same string.
\<close>

theorem to_str_is_canonical:
  "to_str d =
     Inr (nickname d @ address d @ fmt_d (or_port d) @
          fmt_d (case dir_port d of None \<Rightarrow> 0 | Some p \<Rightarrow> p) @
          tor_version d @ exit_policy d @
          fmt_d (average_bandwidth d) @ fmt_d (burst_bandwidth d) @
          fmt_d (observed_bandwidth d) @
          operating_system d @ published d @ fmt_d (uptime d) @ contact d)
   \<and> trnns_to_str d = to_str d
   \<and> to_str d = Inr (canonical d)
   \<and> (\<forall>i. decimal_value (fmt_d i) = i \<and> unpadded_decimal (fmt_d i))"
  using to_str_eq [of d] trnns_to_str_eq [of d] decimal_value_fmt_d unpadded_fmt_d
  by (simp add: canonical_def)

theorem to_str_is_canonical_witness:
  "to_str (example_desc ''A'' ''x'') =
     Inr ''relay10.0.0.1900100.2.7.6reject *:*10242048512Linux2016-01-01 00:00:003600x''
   \<and> trnns_to_str (example_desc ''A'' ''x'') = to_str (example_desc ''A'' ''x'')
   \<and> decimal_value (fmt_d (-42)) = -42 \<and> unpadded_decimal (fmt_d (-42))"
proof -
  note t = to_str_is_canonical [of "example_desc ''A'' ''x''"]
  from t have 1: "to_str (example_desc ''A'' ''x'') = Inr (canonical (example_desc ''A'' ''x''))"
    by (elim conjE)
  from t have 2: "trnns_to_str (example_desc ''A'' ''x'') = to_str (example_desc ''A'' ''x'')"
    by (elim conjE)
  from t have 3: "\<forall>i. decimal_value (fmt_d i) = i \<and> unpadded_decimal (fmt_d i)"
    by (elim conjE)
  from 1 have "to_str (example_desc ''A'' ''x'') =
     Inr ''relay10.0.0.1900100.2.7.6reject *:*10242048512Linux2016-01-01 00:00:003600x''"
    by (simp add: canonical_example)
  with 2 3 show ?thesis by blast
qed

text \<open>Without the substitution, \<^verbatim>\<open>%d\<close> of an absent port would raise.\<close>

lemma without_substitution_type_error: "format ''%d'' [py_opt_int None] = Inl TypeError"
  by (simp add: format_simps py_opt_int_def)

text \<open>
  C7: for every descriptor whose dir-port is absent, canonicalization uses the integer 0
  for it and succeeds, in both files; the result is that of the same descriptor with
  dir-port 0.
\<close>

theorem absent_dir_port_is_zero:
  assumes "dir_port d = None"
  shows "dirport_to_int (dir_port d) = 0
   \<and> to_str d =
     Inr (nickname d @ address d @ fmt_d (or_port d) @ ''0'' @
          tor_version d @ exit_policy d @
          fmt_d (average_bandwidth d) @ fmt_d (burst_bandwidth d) @
          fmt_d (observed_bandwidth d) @
          operating_system d @ published d @ fmt_d (uptime d) @ contact d)
   \<and> trnns_to_str d = to_str d
   \<and> to_str d = to_str (d\<lparr>dir_port := Some 0\<rparr>)"
  using assms to_str_eq [of d] trnns_to_str_eq [of d] to_str_eq [of "d\<lparr>dir_port := Some 0\<rparr>"]
  by (simp add: canonical_def dirport_to_int_def fmt_d_def dec_nat_0)

theorem absent_dir_port_is_zero_witness:
  "dir_port (example_desc ''A'' ''x'') = None
   \<and> dirport_to_int (dir_port (example_desc ''A'' ''x'')) = 0
   \<and> to_str (example_desc ''A'' ''x'') =
       Inr ''relay10.0.0.1900100.2.7.6reject *:*10242048512Linux2016-01-01 00:00:003600x''
   \<and> to_str (example_desc ''A'' ''x'') = to_str ((example_desc ''A'' ''x'')\<lparr>dir_port := Some 0\<rparr>)"
proof -
  have h: "dir_port (example_desc ''A'' ''x'') = None" by (simp add: example_desc_def)
  note t = absent_dir_port_is_zero [OF h]
  from t have 1: "dirport_to_int (dir_port (example_desc ''A'' ''x'')) = 0"
    by (elim conjE)
  from t have 2: "to_str (example_desc ''A'' ''x'') = to_str ((example_desc ''A'' ''x'')\<lparr>dir_port := Some 0\<rparr>)"
    by (elim conjE)
  from t have "to_str (example_desc ''A'' ''x'') =
     Inr (nickname (example_desc ''A'' ''x'') @ address (example_desc ''A'' ''x'') @
          fmt_d (or_port (example_desc ''A'' ''x'')) @ ''0'' @
          tor_version (example_desc ''A'' ''x'') @ exit_policy (example_desc ''A'' ''x'') @
          fmt_d (average_bandwidth (example_desc ''A'' ''x'')) @
          fmt_d (burst_bandwidth (example_desc ''A'' ''x'')) @
          fmt_d (observed_bandwidth (example_desc ''A'' ''x'')) @
          operating_system (example_desc ''A'' ''x'') @ published (example_desc ''A'' ''x'') @
          fmt_d (uptime (example_desc ''A'' ''x'')) @ contact (example_desc ''A'' ''x''))"
    by (elim conjE)
  also have "\<dots> = Inr ''relay10.0.0.1900100.2.7.6reject *:*10242048512Linux2016-01-01 00:00:003600x''"
    by (simp add: example_desc_def eval_simps)
  finally have 3: "to_str (example_desc ''A'' ''x'') =
       Inr ''relay10.0.0.1900100.2.7.6reject *:*10242048512Linux2016-01-01 00:00:003600x''" .
  from h 1 2 3 show ?thesis by blast
qed

text \<open>
  C8: the edit distance is a metric on strings: the distance of a string to itself is 0, the
  distance is symmetric, and it satisfies the triangle inequality. In particular the
  canonical string of every descriptor has distance 0 to itself, and in every run that finds
  the reference relay the ranking holds the reference with distance 0.
\<close>

theorem distance_is_metric:
  "distance s s = 0
   \<and> distance a b = distance b a
   \<and> distance a c \<le> distance a b + distance b c
   \<and> (\<exists>r. to_str d = Inr r \<and> trnns_to_str d = Inr r \<and> distance r r = 0)
   \<and> (fetch_descriptors q = Inr (log0, descs) \<and> map_of descs relay = Some reference
        \<longrightarrow> (relay, 0) \<in> set (ranking reference descs))"
  using distance_refl [of s] distance_refl [of "canonical d"]
    distance_commute [of a b] distance_triangle [of a c b]
    to_str_eq [of d] trnns_to_str_eq [of d] reference_in_ranking [of descs relay reference]
  by simp

theorem distance_is_metric_witness:
  "distance ''ab'' ''ab'' = 0
   \<and> distance ''ab'' ''abc'' = distance ''abc'' ''ab''
   \<and> distance ''ab'' ''xbc'' \<le> distance ''ab'' ''abc'' + distance ''abc'' ''xbc''
   \<and> fetch_descriptors scenario_query = Inr (scenario_log, scenario_descs)
   \<and> map_of scenario_descs ''A'' = Some (example_desc ''A'' [])
   \<and> (''A'', 0) \<in> set (ranking (example_desc ''A'' []) scenario_descs)"
proof -
  note t = distance_is_metric [where s = "''ab''" and a = "''ab''" and b = "''abc''"
      and c = "''xbc''" and d = "example_desc ''A'' []" and q = scenario_query
      and ?log0.0 = scenario_log and descs = scenario_descs and relay = "''A''"
      and reference = "example_desc ''A'' []"]
  from t scenario_fetch scenario_reference show ?thesis by blast
qed

section \<open>Failure, coverage and truncation\<close>

text \<open>
  C2: when the reference fingerprint is not a key of the fetched mapping, both programs log
  the failure, return 1, and do nothing else: the log gains no progress record of the
  ranking loop and nothing is printed.
\<close>

theorem missing_reference_fails:
  assumes "fetch_descriptors q = Inr (log0, descs)" and "relay \<notin> fst ` set descs"
  shows "process_descriptors ext q relay K c =
           Inr \<lparr>logged = log0 @ [Critical ''Reference relay not found in descriptors.''],
                stdout = [], returned = 1\<rparr>
       \<and> trnns_process_descriptors elapsed q relay K =
           Inr \<lparr>logged = log0 @ [Critical ''Reference relay not found in descriptors.''],
                stdout = [], returned = 1\<rparr>"
proof -
  from assms(2) have "map_of descs relay = None" by (simp add: map_of_eq_None_iff)
  with assms(1) show ?thesis by (simp add: process_descriptors_missing)
qed

theorem missing_reference_fails_witness:
  "fetch_descriptors scenario_query = Inr (scenario_log, scenario_descs)
   \<and> ''D'' \<notin> fst ` set scenario_descs
   \<and> process_descriptors example_ext scenario_query ''D'' 2 False =
           Inr \<lparr>logged = scenario_log @ [Critical ''Reference relay not found in descriptors.''],
                stdout = [], returned = 1\<rparr>
   \<and> trnns_process_descriptors ''0.001'' scenario_query ''D'' 2 =
           Inr \<lparr>logged = scenario_log @ [Critical ''Reference relay not found in descriptors.''],
                stdout = [], returned = 1\<rparr>"
proof -
  have h: "''D'' \<notin> fst ` set scenario_descs" by (simp add: scenario_descs_def)
  from missing_reference_fails [OF scenario_fetch h, of example_ext 2 False "''0.001''"]
    scenario_fetch h
  show ?thesis by blast
qed

text \<open>
  C3: when the mapping contains the reference, the loop of both programs runs to the end
  of the mapping and leaves a table with one entry per descriptor, in the order of the
  mapping: the descriptor's fingerprint with the distance between the canonical strings of
  the reference and of the descriptor. The reference itself is among them.
\<close>

theorem ranking_covers_every_descriptor:
  assumes "fetch_descriptors q = Inr (log0, descs)" and "map_of descs relay = Some reference"
  shows "to_str reference = Inr (canonical reference)
       \<and> trnns_to_str reference = Inr (canonical reference)
       \<and> (\<exists>log1. rank_loop to_str (canonical reference) 0 descs ([], log0) =
             Inr (distance_table reference descs, log1))
       \<and> (\<exists>log1. rank_loop trnns_to_str (canonical reference) 0 descs ([], log0) =
             Inr (distance_table reference descs, log1))
       \<and> distance_table reference descs =
             map (\<lambda>(fpr, desc). (fpr, distance (canonical reference) (canonical desc))) descs
       \<and> map fst (distance_table reference descs) = map fst descs
       \<and> length (distance_table reference descs) = length descs
       \<and> distinct (map fst descs)
       \<and> relay \<in> fst ` set (distance_table reference descs)"
proof -
  from assms(1) have k: "keyed descs" by (rule fetch_descriptors_keyed)
  have "(relay, reference) \<in> set descs" using assms(2) by (rule map_of_SomeD)
  then have "relay \<in> set (map fst descs)" by force
  then have "relay \<in> fst ` set (distance_table reference descs)"
    using keys_distance_table [of reference descs] by (metis list.set_map)
  moreover have "length (distance_table reference descs) = length descs"
    by (simp add: distance_table_def)
  ultimately show ?thesis
    using rank_loop_table [of to_str descs reference log0, OF to_str_eq k]
      rank_loop_table [of trnns_to_str descs reference log0, OF trnns_to_str_eq k]
      k keys_distance_table [of reference descs]
    by (simp add: to_str_eq trnns_to_str_eq keyed_def distance_table_def [symmetric])
qed

theorem ranking_covers_every_descriptor_witness:
  "fetch_descriptors scenario_query = Inr (scenario_log, scenario_descs)
   \<and> map_of scenario_descs ''A'' = Some (example_desc ''A'' [])
   \<and> (\<exists>log1. rank_loop to_str (canonical (example_desc ''A'' [])) 0 scenario_descs ([], scenario_log) =
             Inr ([(''A'', 0), (''B'', 3), (''C'', 1)], log1))
   \<and> (\<exists>log1. rank_loop trnns_to_str (canonical (example_desc ''A'' [])) 0 scenario_descs ([], scenario_log) =
             Inr ([(''A'', 0), (''B'', 3), (''C'', 1)], log1))
   \<and> map fst scenario_descs = [''A'', ''B'', ''C'']"
proof -
  note t = ranking_covers_every_descriptor [OF scenario_fetch scenario_reference]
  from t have 1: "\<exists>log1. rank_loop to_str (canonical (example_desc ''A'' [])) 0 scenario_descs ([], scenario_log) =
             Inr (distance_table (example_desc ''A'' []) scenario_descs, log1)"
    by (elim conjE)
  from t have 2: "\<exists>log1. rank_loop trnns_to_str (canonical (example_desc ''A'' [])) 0 scenario_descs ([], scenario_log) =
             Inr (distance_table (example_desc ''A'' []) scenario_descs, log1)"
    by (elim conjE)
  have 3: "map fst scenario_descs = [''A'', ''B'', ''C'']" by (simp add: scenario_descs_def)
  from 1 2 3 scenario_fetch scenario_reference show ?thesis
    unfolding scenario_table by blast
qed

text \<open>
  C4: with a result count of 0 the display loop of both programs stops before its first
  row, whatever the ranking is, so a run that finds the reference prints the header and
  nothing else.
\<close>

theorem zero_count_prints_header_only:
  "lines_loop ext descs relay c 0 0 sorted_dists [header] = Inr [header]
   \<and> print_loop descs 0 0 sorted_dists (trnns_header @ newline) = Inr (trnns_header @ newline)
   \<and> (fetch_descriptors q = Inr (log0, descs) \<and> map_of descs relay = Some reference \<longrightarrow>
        (\<exists>log. process_descriptors ext q relay 0 c =
           Inr \<lparr>logged = log, stdout = tabulate ext [header] @ newline, returned = 0\<rparr>)
      \<and> (\<exists>log. trnns_process_descriptors elapsed q relay 0 =
           Inr \<lparr>logged = log, stdout = trnns_header @ newline, returned = 0\<rparr>))"
proof -
  have 1: "lines_loop ext descs relay c 0 0 sorted_dists [header] = Inr [header]"
    by (cases sorted_dists) simp_all
  have 2: "print_loop descs 0 0 sorted_dists (trnns_header @ newline) = Inr (trnns_header @ newline)"
    by (cases sorted_dists) simp_all
  have 3: "\<exists>log. process_descriptors ext q relay 0 c =
           Inr \<lparr>logged = log, stdout = tabulate ext [header] @ newline, returned = 0\<rparr>"
    if f: "fetch_descriptors q = Inr (log0, descs)" and r: "map_of descs relay = Some reference"
  proof -
    from table_rows_exist [OF r, of ext c reference] obtain rows
      where "map (table_line ext descs relay c) (ranking reference descs) = map Inr rows" ..
    from process_descriptors_found [OF f r this, of 0] show ?thesis by simp
  qed
  have 4: "\<exists>log. trnns_process_descriptors elapsed q relay 0 =
           Inr \<lparr>logged = log, stdout = trnns_header @ newline, returned = 0\<rparr>"
    if f: "fetch_descriptors q = Inr (log0, descs)" and r: "map_of descs relay = Some reference"
  proof -
    from print_rows_exist [of descs reference] obtain rows
      where "map (print_row descs) (ranking reference descs) = map Inr rows" ..
    from trnns_process_descriptors_found [OF f r this, of elapsed 0] show ?thesis by simp
  qed
  from 1 2 3 4 show ?thesis by blast
qed

theorem zero_count_prints_header_only_witness:
  "fetch_descriptors scenario_query = Inr (scenario_log, scenario_descs)
   \<and> map_of scenario_descs ''A'' = Some (example_desc ''A'' [])
   \<and> lines_loop example_ext scenario_descs ''A'' False 0 0 [(''A'', 0), (''C'', 1), (''B'', 3)] [header]
       = Inr [header]
   \<and> (\<exists>log. process_descriptors example_ext scenario_query ''A'' 0 False =
           Inr \<lparr>logged = log, stdout = tabulate example_ext [header] @ newline, returned = 0\<rparr>)
   \<and> (\<exists>log. trnns_process_descriptors ''0.001'' scenario_query ''A'' 0 =
           Inr \<lparr>logged = log, stdout = trnns_header @ newline, returned = 0\<rparr>)"
  using zero_count_prints_header_only [where ext = example_ext and descs = scenario_descs
      and relay = "''A''" and c = False and sorted_dists = "[(''A'', 0), (''C'', 1), (''B'', 3)]"
      and q = scenario_query and ?log0.0 = scenario_log and reference = "example_desc ''A'' []"
      and elapsed = "''0.001''"]
    scenario_fetch scenario_reference
  by blast

section \<open>Runs on the example inputs\<close>

lemma take_results: "map body es = map Inr rs \<Longrightarrow> map body (take k es) = map Inr (take k rs)"
  by (metis take_map)

lemma replicate_two: "replicate 2 x = [x, x]"
  by (simp add: numeral_2_eq_2)

lemma desc_to_str_example:
  "desc_to_str (example_desc f c) =
     Inr (take 8 f @ '',relay,10.0.0.1,9001,0,0.2.7.6,Linux,1024,2048,512,3600,'' @ c)"
  by (simp add: desc_to_str_eq example_desc_def eval_simps dirport_to_int_def)

lemma scenario_table_lines:
  "map (table_line example_ext scenario_descs ''A'' False) [(''A'', 0), (''C'', 1), (''B'', 3)] =
     map Inr
      [[''  0'', ''A'', ''relay'', ''10.0.0.1'', ''9001'', ''0'', ''0.2.7.6'',
        ''Linux'', ''1024'', ''2048'', ''512'', ''3600'', [], []],
       [''  1'', ''C'', ''relay'', ''10.0.0.1'', ''9001'', ''0'', ''0.2.7.6'',
        ''Linux'', ''1024'', ''2048'', ''512'', ''3600'', ''x'', []],
       [''  3'', ''B'', ''relay'', ''10.0.0.1'', ''9001'', ''0'', ''0.2.7.6'',
        ''Linux'', ''1024'', ''2048'', ''512'', ''3600'', ''xyz'', []]]"
  by (simp add: table_line_def subscript_def scenario_descs_def format_desc_def
      desc_to_str_example format_cell rjust_def eval_simps replicate_two)

lemma scenario_print_rows:
  "map (print_row scenario_descs) [(''A'', 0), (''C'', 1), (''B'', 3)] =
     map Inr
      [''  0,A,relay,10.0.0.1,9001,0.2.7.6,Linux,512,'' @ newline,
       ''  1,C,relay,10.0.0.1,9001,0.2.7.6,Linux,512,x'' @ newline,
       ''  3,B,relay,10.0.0.1,9001,0.2.7.6,Linux,512,xyz'' @ newline]"
  by (simp add: print_row_def subscript_def scenario_descs_def format_cell_comma print_desc_eq
      example_desc_def eval_simps rjust_def replicate_two)

lemma scenario_table_rows:
  "map (table_line example_ext scenario_descs ''A'' False) (ranking (example_desc ''A'' []) scenario_descs) =
     map Inr
      [[''  0'', ''A'', ''relay'', ''10.0.0.1'', ''9001'', ''0'', ''0.2.7.6'',
        ''Linux'', ''1024'', ''2048'', ''512'', ''3600'', [], []],
       [''  1'', ''C'', ''relay'', ''10.0.0.1'', ''9001'', ''0'', ''0.2.7.6'',
        ''Linux'', ''1024'', ''2048'', ''512'', ''3600'', ''x'', []],
       [''  3'', ''B'', ''relay'', ''10.0.0.1'', ''9001'', ''0'', ''0.2.7.6'',
        ''Linux'', ''1024'', ''2048'', ''512'', ''3600'', ''xyz'', []]]"
  unfolding scenario_ranking by (rule scenario_table_lines)

lemma scenario_print_lines:
  "map (print_row scenario_descs) (ranking (example_desc ''A'' []) scenario_descs) =
     map Inr
      [''  0,A,relay,10.0.0.1,9001,0.2.7.6,Linux,512,'' @ newline,
       ''  1,C,relay,10.0.0.1,9001,0.2.7.6,Linux,512,x'' @ newline,
       ''  3,B,relay,10.0.0.1,9001,0.2.7.6,Linux,512,xyz'' @ newline]"
  unfolding scenario_ranking by (rule scenario_print_rows)

lemma take_two: "take (nat 2) [a, b, c] = [a, b]"
  by (simp add: numeral_2_eq_2)

lemma scenario_run:
  "\<exists>log. process_descriptors example_ext scenario_query ''A'' 2 False =
         Inr \<lparr>logged = log,
              stdout = tabulate example_ext
                [header,
                 [''  0'', ''A'', ''relay'', ''10.0.0.1'', ''9001'', ''0'', ''0.2.7.6'',
                  ''Linux'', ''1024'', ''2048'', ''512'', ''3600'', [], []],
                 [''  1'', ''C'', ''relay'', ''10.0.0.1'', ''9001'', ''0'', ''0.2.7.6'',
                  ''Linux'', ''1024'', ''2048'', ''512'', ''3600'', ''x'', []]] @ newline,
              returned = 0\<rparr>"
proof -
  note t = process_descriptors_found [OF scenario_fetch scenario_reference scenario_table_rows, of 2]
  have "(0::int) \<le> 2" by simp
  with t show ?thesis unfolding take_two by (simp only: if_True)
qed

lemma scenario_run_trnns:
  "\<exists>log. trnns_process_descriptors ''0.001'' scenario_query ''A'' 2 =
         Inr \<lparr>logged = log,
              stdout = trnns_header @ newline @
                ''  0,A,relay,10.0.0.1,9001,0.2.7.6,Linux,512,'' @ newline @
                ''  1,C,relay,10.0.0.1,9001,0.2.7.6,Linux,512,x'' @ newline,
              returned = 0\<rparr>"
proof -
  note t = trnns_process_descriptors_found [OF scenario_fetch scenario_reference scenario_print_lines,
      of "''0.001''" 2]
  have "(0::int) \<le> 2" by simp
  with t show ?thesis unfolding take_two by (simp only: if_True concat.simps append_Nil2 append_assoc)
qed

lemma found_top_k:
  assumes f: "fetch_descriptors q = Inr (log0, descs)" and r: "map_of descs relay = Some reference"
  shows "\<exists>rows log.
          map (table_line ext descs relay c) (take k (ranking reference descs)) = map Inr rows
        \<and> process_descriptors ext q relay (int k) c =
            Inr \<lparr>logged = log, stdout = tabulate ext (header # rows) @ newline, returned = 0\<rparr>"
    and "\<exists>lines log.
          map (print_row descs) (take k (ranking reference descs)) = map Inr lines
        \<and> trnns_process_descriptors elapsed q relay (int k) =
            Inr \<lparr>logged = log, stdout = trnns_header @ newline @ concat lines, returned = 0\<rparr>"
proof -
  from table_rows_exist [OF r, of ext c reference] obtain rows
    where rows: "map (table_line ext descs relay c) (ranking reference descs) = map Inr rows" ..
  from print_rows_exist [of descs reference] obtain lines
    where lines: "map (print_row descs) (ranking reference descs) = map Inr lines" ..
  from process_descriptors_found [OF f r rows, of "int k"] obtain log
    where p: "process_descriptors ext q relay (int k) c =
          Inr \<lparr>logged = log, stdout = tabulate ext (header # take k rows) @ newline, returned = 0\<rparr>"
    by auto
  from trnns_process_descriptors_found [OF f r lines, of elapsed "int k"] obtain log'
    where t: "trnns_process_descriptors elapsed q relay (int k) =
          Inr \<lparr>logged = log', stdout = trnns_header @ newline @ concat (take k lines), returned = 0\<rparr>"
    by auto
  from take_results [OF rows, of k] p
  show "\<exists>rows log.
          map (table_line ext descs relay c) (take k (ranking reference descs)) = map Inr rows
        \<and> process_descriptors ext q relay (int k) c =
            Inr \<lparr>logged = log, stdout = tabulate ext (header # rows) @ newline, returned = 0\<rparr>"
    by blast
  from take_results [OF lines, of k] t
  show "\<exists>lines log.
          map (print_row descs) (take k (ranking reference descs)) = map Inr lines
        \<and> trnns_process_descriptors elapsed q relay (int k) =
            Inr \<lparr>logged = log, stdout = trnns_header @ newline @ concat lines, returned = 0\<rparr>"
    by blast
qed

lemma ranking_stable:
  "filter (\<lambda>e. snd e = n) (ranking reference descs) =
   filter (\<lambda>e. snd e = n) (distance_table reference descs)"
  by (simp add: ranking_def sort_key_stable)

section \<open>The first k candidates\<close>

text \<open>
  C1: in a run that finds the reference, the ranking is the table of (fingerprint,
  distance) pairs sorted ascending by distance (a stable sort of the table the loop built),
  and for a count \<open>k\<close> both programs emit the rows of its first \<open>k\<close> entries, in that order,
  after the header. In the scenario of the spec (A the reference at distance 0, B at
  distance 3, C at distance 1, count 2) the rows are those of A and then C, and B has none.
\<close>

theorem ranking_sorted_and_truncated:
  "(fetch_descriptors q = Inr (log0, descs) \<and> map_of descs relay = Some reference \<longrightarrow>
      sorted_by_distance (distance_table reference descs) = ranking reference descs
    \<and> sorted (map snd (ranking reference descs))
    \<and> set (ranking reference descs) = set (distance_table reference descs)
    \<and> length (ranking reference descs) = length descs
    \<and> (\<forall>n. filter (\<lambda>e. snd e = n) (ranking reference descs) =
             filter (\<lambda>e. snd e = n) (distance_table reference descs))
    \<and> (\<exists>rows log.
          map (table_line ext descs relay c) (take k (ranking reference descs)) = map Inr rows
        \<and> process_descriptors ext q relay (int k) c =
            Inr \<lparr>logged = log, stdout = tabulate ext (header # rows) @ newline, returned = 0\<rparr>)
    \<and> (\<exists>lines log.
          map (print_row descs) (take k (ranking reference descs)) = map Inr lines
        \<and> trnns_process_descriptors elapsed q relay (int k) =
            Inr \<lparr>logged = log, stdout = trnns_header @ newline @ concat lines, returned = 0\<rparr>))
   \<and> fetch_descriptors scenario_query = Inr (scenario_log, scenario_descs)
   \<and> distance_table (example_desc ''A'' []) scenario_descs = [(''A'', 0), (''B'', 3), (''C'', 1)]
   \<and> ranking (example_desc ''A'' []) scenario_descs = [(''A'', 0), (''C'', 1), (''B'', 3)]
   \<and> (\<exists>log. process_descriptors example_ext scenario_query ''A'' 2 False =
         Inr \<lparr>logged = log,
              stdout = tabulate example_ext
                [header,
                 [''  0'', ''A'', ''relay'', ''10.0.0.1'', ''9001'', ''0'', ''0.2.7.6'',
                  ''Linux'', ''1024'', ''2048'', ''512'', ''3600'', [], []],
                 [''  1'', ''C'', ''relay'', ''10.0.0.1'', ''9001'', ''0'', ''0.2.7.6'',
                  ''Linux'', ''1024'', ''2048'', ''512'', ''3600'', ''x'', []]] @ newline,
              returned = 0\<rparr>)
   \<and> (\<exists>log. trnns_process_descriptors ''0.001'' scenario_query ''A'' 2 =
         Inr \<lparr>logged = log,
              stdout = trnns_header @ newline @
                ''  0,A,relay,10.0.0.1,9001,0.2.7.6,Linux,512,'' @ newline @
                ''  1,C,relay,10.0.0.1,9001,0.2.7.6,Linux,512,x'' @ newline,
              returned = 0\<rparr>)"
proof (intro conjI impI)
  assume a: "fetch_descriptors q = Inr (log0, descs) \<and> map_of descs relay = Some reference"
  then have f: "fetch_descriptors q = Inr (log0, descs)"
    and r: "map_of descs relay = Some reference" by simp_all
  show "sorted_by_distance (distance_table reference descs) = ranking reference descs"
    by (simp add: sorted_by_distance_def ranking_def)
  show "sorted (map snd (ranking reference descs))" by (rule sorted_ranking)
  show "set (ranking reference descs) = set (distance_table reference descs)" by (rule set_ranking)
  show "length (ranking reference descs) = length descs" by (rule length_ranking)
  show "\<forall>n. filter (\<lambda>e. snd e = n) (ranking reference descs) =
             filter (\<lambda>e. snd e = n) (distance_table reference descs)"
    by (simp add: ranking_stable)
  show "\<exists>rows log.
          map (table_line ext descs relay c) (take k (ranking reference descs)) = map Inr rows
        \<and> process_descriptors ext q relay (int k) c =
            Inr \<lparr>logged = log, stdout = tabulate ext (header # rows) @ newline, returned = 0\<rparr>"
    by (rule found_top_k (1) [OF f r])
  show "\<exists>lines log.
          map (print_row descs) (take k (ranking reference descs)) = map Inr lines
        \<and> trnns_process_descriptors elapsed q relay (int k) =
            Inr \<lparr>logged = log, stdout = trnns_header @ newline @ concat lines, returned = 0\<rparr>"
    by (rule found_top_k (2) [OF f r])
next
  show "fetch_descriptors scenario_query = Inr (scenario_log, scenario_descs)"
    by (rule scenario_fetch)
  show "distance_table (example_desc ''A'' []) scenario_descs = [(''A'', 0), (''B'', 3), (''C'', 1)]"
    by (rule scenario_table)
  show "ranking (example_desc ''A'' []) scenario_descs = [(''A'', 0), (''C'', 1), (''B'', 3)]"
    by (rule scenario_ranking)
  show "\<exists>log. process_descriptors example_ext scenario_query ''A'' 2 False =
         Inr \<lparr>logged = log,
              stdout = tabulate example_ext
                [header,
                 [''  0'', ''A'', ''relay'', ''10.0.0.1'', ''9001'', ''0'', ''0.2.7.6'',
                  ''Linux'', ''1024'', ''2048'', ''512'', ''3600'', [], []],
                 [''  1'', ''C'', ''relay'', ''10.0.0.1'', ''9001'', ''0'', ''0.2.7.6'',
                  ''Linux'', ''1024'', ''2048'', ''512'', ''3600'', ''x'', []]] @ newline,
              returned = 0\<rparr>"
    by (rule scenario_run)
  show "\<exists>log. trnns_process_descriptors ''0.001'' scenario_query ''A'' 2 =
         Inr \<lparr>logged = log,
              stdout = trnns_header @ newline @
                ''  0,A,relay,10.0.0.1,9001,0.2.7.6,Linux,512,'' @ newline @
                ''  1,C,relay,10.0.0.1,9001,0.2.7.6,Linux,512,x'' @ newline,
              returned = 0\<rparr>"
    by (rule scenario_run_trnns)
qed

theorem ranking_sorted_and_truncated_witness:
  "fetch_descriptors scenario_query = Inr (scenario_log, scenario_descs)
   \<and> map_of scenario_descs ''A'' = Some (example_desc ''A'' [])
   \<and> sorted (map snd (ranking (example_desc ''A'' []) scenario_descs))
   \<and> (\<exists>rows log.
          map (table_line example_ext scenario_descs ''A'' False)
            (take 2 (ranking (example_desc ''A'' []) scenario_descs)) = map Inr rows
        \<and> process_descriptors example_ext scenario_query ''A'' (int 2) False =
            Inr \<lparr>logged = log, stdout = tabulate example_ext (header # rows) @ newline, returned = 0\<rparr>)
   \<and> (\<exists>lines log.
          map (print_row scenario_descs) (take 2 (ranking (example_desc ''A'' []) scenario_descs)) =
            map Inr lines
        \<and> trnns_process_descriptors ''0.001'' scenario_query ''A'' (int 2) =
            Inr \<lparr>logged = log, stdout = trnns_header @ newline @ concat lines, returned = 0\<rparr>)"
proof -
  note t = ranking_sorted_and_truncated [where q = scenario_query and ?log0.0 = scenario_log
      and descs = scenario_descs and relay = "''A''" and reference = "example_desc ''A'' []"
      and ext = example_ext and c = False and k = 2 and elapsed = "''0.001''"]
  from t scenario_fetch scenario_reference show ?thesis by blast
qed

section \<open>Formatting a row without colour\<close>

lemma str_split_not_Nil: "str_split sep s \<noteq> []"
  by (induction s) (auto split: list.splits)

lemma str_split_no_sep: "sep \<notin> set s \<Longrightarrow> str_split sep s = [s]"
  by (induction s) auto

lemma str_split_append:
  "sep \<notin> set s \<Longrightarrow> str_split sep (s @ sep # rest) = s # str_split sep rest"
  by (induction s) auto

lemma is_digit_not_comma: "is_digit c \<Longrightarrow> c \<noteq> CHR '',''"
  by (auto simp: is_digit_def)

lemma dec_nat_no_comma: "CHR '','' \<notin> set (dec_nat n)"
  using dec_nat_digits [of n] is_digit_not_comma by (auto simp: list_all_iff)

lemma fmt_d_no_comma: "CHR '','' \<notin> set (fmt_d i)"
  by (simp add: fmt_d_def dec_nat_no_comma)

lemma chars_loop_plain:
  "chars_loop ext False (zip_longest string ref_string) final_string =
     final_string @ pad_to ref_string string"
proof (induction string ref_string arbitrary: final_string rule: zip_longest.induct)
  case 1
  show ?case by (simp add: pad_to_def)
next
  case (2 x xs)
  then show ?case by (simp add: pad_to_def)
next
  case (3 y ys)
  then show ?case by (simp add: pad_to_def replicate_append_same)
next
  case (4 x xs y ys)
  then show ?case by (simp add: pad_to_def)
qed

lemma fields_loop_plain:
  "fields_loop ext False pairs final_string =
     final_string @ concat (map (\<lambda>(string, ref_string). pad_to ref_string string @ '','') pairs)"
  by (induction pairs arbitrary: final_string) (auto simp: chars_loop_plain)

lemma str_split_fields:
  "list_all (\<lambda>f. CHR '','' \<notin> set f) fs \<Longrightarrow>
   str_split CHR '','' (concat (map (\<lambda>f. f @ '','') fs)) = fs @ [[]]"
  by (induction fs) (simp_all add: str_split_append)

lemma pad_to_no_comma: "CHR '','' \<notin> set string \<Longrightarrow> CHR '','' \<notin> set (pad_to ref_string string)"
  by (auto simp: pad_to_def)

lemma display_fields_no_comma:
  "comma_free d \<Longrightarrow> list_all (\<lambda>f. CHR '','' \<notin> set f) (display_fields d)"
  by (simp add: comma_free_def display_fields_def fmt_d_no_comma)

lemma split_desc_to_str:
  assumes "comma_free d"
  shows "\<exists>s. desc_to_str d = Inr s \<and> str_split CHR '','' s = display_fields d"
  using assms
  by (simp add: desc_to_str_eq comma_free_def display_fields_def fmt_d_no_comma
      str_split_append str_split_no_sep)

lemma format_desc_plain:
  assumes "comma_free desc" and "comma_free ref_desc"
  shows "format_desc ext desc ref_desc False =
     Inr (map (\<lambda>(string, ref_string). pad_to ref_string string)
            (zip (display_fields desc) (display_fields ref_desc)) @ [[]])"
proof -
  from split_desc_to_str [OF assms(1)] obtain s
    where s: "desc_to_str desc = Inr s" "str_split CHR '','' s = display_fields desc" by blast
  from split_desc_to_str [OF assms(2)] obtain r
    where r: "desc_to_str ref_desc = Inr r" "str_split CHR '','' r = display_fields ref_desc" by blast
  let ?pairs = "zip (display_fields desc) (display_fields ref_desc)"
  let ?padded = "map (\<lambda>(string, ref_string). pad_to ref_string string) ?pairs"
  have "list_all (\<lambda>f. CHR '','' \<notin> set f) ?padded"
    using display_fields_no_comma [OF assms(1)]
    by (auto simp: list_all_iff pad_to_no_comma dest: set_zip_leftD)
  then have "str_split CHR '','' (concat (map (\<lambda>f. f @ '','') ?padded)) = ?padded @ [[]]"
    by (rule str_split_fields)
  moreover have "concat (map (\<lambda>(string, ref_string). pad_to ref_string string @ '','') ?pairs)
      = concat (map (\<lambda>f. f @ '','') ?padded)"
    by (simp add: case_prod_unfold comp_def)
  ultimately show ?thesis
    by (simp add: format_desc_def s r fields_loop_plain)
qed

text \<open>
  C10 (as amended): in the colour variant, for every candidate and reference descriptor
  none of whose displayed text fields (the first eight characters of the fingerprint,
  nickname, address, version, operating system, contact) contains a comma, and with
  \<open>use_colour = False\<close>, \<open>format_desc\<close> returns 13 strings: the 12 comma-separated fields
  of \<open>desc_to_str\<close> of the candidate, each followed by as many spaces as it is shorter
  than the reference's field, and then one empty string.
\<close>

theorem format_desc_without_colour:
  assumes "comma_free desc" and "comma_free ref_desc"
  shows "(\<exists>s. desc_to_str desc = Inr s \<and> str_split CHR '','' s = display_fields desc)
       \<and> format_desc ext desc ref_desc False =
           Inr (map (\<lambda>(string, ref_string).
                       string @ replicate (length ref_string - length string) CHR '' '')
                  (zip (display_fields desc) (display_fields ref_desc)) @ [[]])
       \<and> length (display_fields desc) = 12
       \<and> length (map (\<lambda>(string, ref_string).
                       string @ replicate (length ref_string - length string) CHR '' '')
                  (zip (display_fields desc) (display_fields ref_desc)) @ [[]]) = 13"
proof -
  have "length (display_fields desc) = 12" "length (display_fields ref_desc) = 12"
    by (simp_all add: display_fields_def)
  then show ?thesis
    using split_desc_to_str [OF assms(1)] format_desc_plain [OF assms, of ext]
    by (simp add: pad_to_def)
qed

theorem format_desc_without_colour_witness:
  "comma_free (example_desc ''A'' ''a'') \<and> comma_free (example_desc ''B'' ''cde'')
   \<and> format_desc example_ext (example_desc ''A'' ''a'') (example_desc ''B'' ''cde'') False =
       Inr [''A'', ''relay'', ''10.0.0.1'', ''9001'', ''0'', ''0.2.7.6'', ''Linux'', ''1024'',
            ''2048'', ''512'', ''3600'', ''a  '', []]"
proof -
  have a: "comma_free (example_desc ''A'' ''a'')" by (simp add: comma_free_def example_desc_def)
  have b: "comma_free (example_desc ''B'' ''cde'')" by (simp add: comma_free_def example_desc_def)
  note t = format_desc_without_colour [OF a b, of example_ext]
  from t have "format_desc example_ext (example_desc ''A'' ''a'') (example_desc ''B'' ''cde'') False =
           Inr (map (\<lambda>(string, ref_string).
                       string @ replicate (length ref_string - length string) CHR '' '')
                  (zip (display_fields (example_desc ''A'' ''a''))
                       (display_fields (example_desc ''B'' ''cde''))) @ [[]])"
    by (elim conjE)
  also have "\<dots> = Inr [''A'', ''relay'', ''10.0.0.1'', ''9001'', ''0'', ''0.2.7.6'', ''Linux'', ''1024'',
            ''2048'', ''512'', ''3600'', ''a  '', []]"
    by (simp add: display_fields_def example_desc_def eval_simps dirport_to_int_def replicate_two)
  finally show ?thesis using a b by simp
qed

text \<open>
  Without that restriction the statement fails, since a comma inside a field separates: with the contact \<^verbatim>\<open>a,b\<close> against
  the reference contact \<^verbatim>\<open>c,d\<close> the result has 14 strings, and against the reference
  contact \<^verbatim>\<open>c\<close> the candidate's \<^verbatim>\<open>b\<close> is not in the result at all.
\<close>

theorem format_desc_comma_counterexample:
  "desc_to_str (example_desc ''A'' ''a,b'') =
     Inr ''A,relay,10.0.0.1,9001,0,0.2.7.6,Linux,1024,2048,512,3600,a,b''
   \<and> format_desc example_ext (example_desc ''A'' ''a,b'') (example_desc ''B'' ''c,d'') False =
       Inr [''A'', ''relay'', ''10.0.0.1'', ''9001'', ''0'', ''0.2.7.6'', ''Linux'', ''1024'',
            ''2048'', ''512'', ''3600'', ''a'', ''b'', []]
   \<and> length [''A'', ''relay'', ''10.0.0.1'', ''9001'', ''0'', ''0.2.7.6'', ''Linux'', ''1024'',
            ''2048'', ''512'', ''3600'', ''a'', ''b'', []] \<noteq> 13
   \<and> format_desc example_ext (example_desc ''A'' ''a,b'') (example_desc ''B'' ''c'') False =
       Inr [''A'', ''relay'', ''10.0.0.1'', ''9001'', ''0'', ''0.2.7.6'', ''Linux'', ''1024'',
            ''2048'', ''512'', ''3600'', ''a'', []]"
  by (simp add: format_desc_def desc_to_str_example)

section \<open>What the emitted rows are\<close>

lemma table_line_eq:
  "map_of descs fpr = Some d \<Longrightarrow> map_of descs relay = Some r \<Longrightarrow>
   format_desc ext d r c = Inr line \<Longrightarrow>
   table_line ext descs relay c (fpr, n) = Inr (rjust 3 (fmt_d (int n)) # line)"
  by (simp add: table_line_def subscript_Some format_cell)

lemma print_row_eq:
  "map_of descs fpr = Some d \<Longrightarrow>
   print_row descs (fpr, n) =
     Inr (rjust 3 (fmt_d (int n)) @ '','' @ fingerprint d @ '','' @
          nickname d @ '','' @ address d @ '','' @ fmt_d (or_port d) @ '','' @
          tor_version d @ '','' @ operating_system d @ '','' @
          fmt_d (observed_bandwidth d) @ '','' @ contact d @ newline)"
  by (simp add: print_row_def subscript_Some format_cell_comma print_desc_eq)

lemma ranking_entry:
  assumes k: "keyed descs" and e: "e \<in> set (ranking reference descs)"
  shows "\<exists>d. map_of descs (fst e) = Some d \<and> fingerprint d = fst e
           \<and> snd e = distance (canonical reference) (canonical d)"
proof -
  from e have "e \<in> set (distance_table reference descs)" by (simp add: set_ranking)
  then obtain fpr d where m: "(fpr, d) \<in> set descs"
    and v: "e = (fpr, distance (canonical reference) (canonical d))"
    by (auto simp: distance_table_def)
  from k m have "map_of descs fpr = Some d" by (simp add: keyed_def)
  moreover from k m have "fingerprint d = fpr" by (auto simp: keyed_def list_all_iff)
  ultimately show ?thesis using v by simp
qed

lemma results_rel: "map body es = map Inr rs \<Longrightarrow> list_all2 (\<lambda>e r. body e = Inr r) es rs"
proof (induction es arbitrary: rs)
  case Nil
  then show ?case by simp
next
  case (Cons e es)
  then show ?case by (cases rs) auto
qed

lemma table_rows_pinned:
  assumes k: "keyed descs" and r: "map_of descs relay = Some reference"
    and rows: "map (table_line ext descs relay c) (ranking reference descs) = map Inr rows"
  shows "list_all2 (emitted_table_row ext descs reference c) (ranking reference descs) rows"
proof (rule list.rel_mono_strong [OF results_rel [OF rows]])
  fix e row
  assume e: "e \<in> set (ranking reference descs)"
    and b: "table_line ext descs relay c e = Inr row"
  from ranking_entry [OF k e] obtain d where d: "map_of descs (fst e) = Some d"
    "fingerprint d = fst e" "snd e = distance (canonical reference) (canonical d)" by blast
  from format_desc_ok [of ext d reference c] obtain line
    where l: "format_desc ext d reference c = Inr line" ..
  from table_line_eq [OF d(1) r l, of "snd e"] b
  have row: "row = rjust 3 (fmt_d (int (snd e))) # line" by simp
  have "line = map (\<lambda>(string, ref_string).
                         string @ replicate (length ref_string - length string) CHR '' '')
                    (zip (display_fields d) (display_fields reference)) @ [[]]"
    if "\<not> c" "comma_free d" "comma_free reference"
    using format_desc_plain [OF that(2,3), of ext] l that(1) by (simp add: pad_to_def)
  with d l row show "emitted_table_row ext descs reference c e row"
    unfolding emitted_table_row_def by blast
qed

lemma text_rows_pinned:
  assumes k: "keyed descs"
    and lines: "map (print_row descs) (ranking reference descs) = map Inr lines"
  shows "list_all2 (emitted_text_row descs reference) (ranking reference descs) lines"
proof (rule list.rel_mono_strong [OF results_rel [OF lines]])
  fix e line
  assume e: "e \<in> set (ranking reference descs)"
    and b: "print_row descs e = Inr line"
  from ranking_entry [OF k e] obtain d where d: "map_of descs (fst e) = Some d"
    "fingerprint d = fst e" "snd e = distance (canonical reference) (canonical d)" by blast
  have "print_row descs e = print_row descs (fst e, snd e)" by simp
  with print_row_eq [OF d(1), of "snd e"] b
  have "line = rjust 3 (fmt_d (int (snd e))) @ '','' @ fingerprint d @ '','' @
          nickname d @ '','' @ address d @ '','' @ fmt_d (or_port d) @ '','' @
          tor_version d @ '','' @ operating_system d @ '','' @
          fmt_d (observed_bandwidth d) @ '','' @ contact d @ newline"
    by (simp del: prod.collapse)
  with d show "emitted_text_row descs reference e line"
    unfolding emitted_text_row_def by blast
qed

lemma scenario_full_run:
  assumes "K < 0 \<or> 3 \<le> K"
  shows "\<exists>log. process_descriptors example_ext scenario_query ''A'' K False =
         Inr \<lparr>logged = log,
              stdout = tabulate example_ext
                [header,
                 [''  0'', ''A'', ''relay'', ''10.0.0.1'', ''9001'', ''0'', ''0.2.7.6'',
                  ''Linux'', ''1024'', ''2048'', ''512'', ''3600'', [], []],
                 [''  1'', ''C'', ''relay'', ''10.0.0.1'', ''9001'', ''0'', ''0.2.7.6'',
                  ''Linux'', ''1024'', ''2048'', ''512'', ''3600'', ''x'', []],
                 [''  3'', ''B'', ''relay'', ''10.0.0.1'', ''9001'', ''0'', ''0.2.7.6'',
                  ''Linux'', ''1024'', ''2048'', ''512'', ''3600'', ''xyz'', []]] @ newline,
              returned = 0\<rparr>"
proof -
  note t = process_descriptors_found [OF scenario_fetch scenario_reference scenario_table_rows, of K]
  have "(if 0 \<le> K then take (nat K) [a, b, c] else [a, b, c]) = [a, b, c]" for a b c :: "string list"
    using assms by auto
  with t show ?thesis by simp
qed

lemma scenario_full_run_trnns:
  assumes "K < 0 \<or> 3 \<le> K"
  shows "\<exists>log. trnns_process_descriptors ''0.001'' scenario_query ''A'' K =
         Inr \<lparr>logged = log,
              stdout = trnns_header @ newline @
                ''  0,A,relay,10.0.0.1,9001,0.2.7.6,Linux,512,'' @ newline @
                ''  1,C,relay,10.0.0.1,9001,0.2.7.6,Linux,512,x'' @ newline @
                ''  3,B,relay,10.0.0.1,9001,0.2.7.6,Linux,512,xyz'' @ newline,
              returned = 0\<rparr>"
proof -
  note t = trnns_process_descriptors_found [OF scenario_fetch scenario_reference scenario_print_lines,
      of "''0.001''" K]
  have "(if 0 \<le> K then take (nat K) [a, b, c] else [a, b, c]) = [a, b, c]" for a b c :: string
    using assms by auto
  with t show ?thesis by simp
qed

lemma all_rows_emitted:
  assumes f: "fetch_descriptors q = Inr (log0, descs)"
    and r: "map_of descs relay = Some reference"
    and K: "K < 0 \<or> int (length descs) < K"
  shows "\<exists>rows lines log log'.
           map (table_line ext descs relay c) (ranking reference descs) = map Inr rows
         \<and> map (print_row descs) (ranking reference descs) = map Inr lines
         \<and> lines_loop ext descs relay c K 0 (ranking reference descs) [header] = Inr (header # rows)
         \<and> print_loop descs K 0 (ranking reference descs) (trnns_header @ newline) =
             Inr (trnns_header @ newline @ concat lines)
         \<and> process_descriptors ext q relay K c =
             Inr \<lparr>logged = log, stdout = tabulate ext (header # rows) @ newline, returned = 0\<rparr>
         \<and> trnns_process_descriptors elapsed q relay K =
             Inr \<lparr>logged = log', stdout = trnns_header @ newline @ concat lines, returned = 0\<rparr>
         \<and> list_all2 (emitted_table_row ext descs reference c) (ranking reference descs) rows
         \<and> list_all2 (emitted_text_row descs reference) (ranking reference descs) lines
         \<and> length rows = length descs \<and> length lines = length descs \<and> rows \<noteq> [] \<and> lines \<noteq> []
         \<and> distinct (map fst (ranking reference descs))
         \<and> set (map fst (ranking reference descs)) = set (map fst descs)"
proof -
  from f have k: "keyed descs" by (rule fetch_descriptors_keyed)
  from table_rows_exist [OF r, of ext c reference] obtain rows
    where rows: "map (table_line ext descs relay c) (ranking reference descs) = map Inr rows" ..
  from print_rows_exist [of descs reference] obtain lines
    where lines: "map (print_row descs) (ranking reference descs) = map Inr lines" ..
  from rows have lr: "length rows = length descs"
    using length_ranking [of reference descs] by (metis length_map)
  from lines have ll: "length lines = length descs"
    using length_ranking [of reference descs] by (metis length_map)
  from r have "descs \<noteq> []" by auto
  with lr ll have ne: "rows \<noteq> []" "lines \<noteq> []" by auto
  have tr: "(if 0 \<le> K then take (nat K) rows else rows) = rows"
    using K lr by auto
  have tl: "(if 0 \<le> K then take (nat K) lines else lines) = lines"
    using K ll by auto
  from process_descriptors_found [OF f r rows, of K] obtain log
    where p: "process_descriptors ext q relay K c =
             Inr \<lparr>logged = log, stdout = tabulate ext (header # rows) @ newline, returned = 0\<rparr>"
    unfolding tr by blast
  from trnns_process_descriptors_found [OF f r lines, of elapsed K] obtain log'
    where t: "trnns_process_descriptors elapsed q relay K =
             Inr \<lparr>logged = log', stdout = trnns_header @ newline @ concat lines, returned = 0\<rparr>"
    unfolding tl by blast
  have l1: "lines_loop ext descs relay c K 0 (ranking reference descs) [header] = Inr (header # rows)"
    using K lr by (auto simp: lines_loop_eq [OF rows])
  have l2: "print_loop descs K 0 (ranking reference descs) (trnns_header @ newline) =
             Inr (trnns_header @ newline @ concat lines)"
    using K ll by (auto simp: print_loop_eq [OF lines])
  from k have "distinct (map fst descs)" by (simp add: keyed_def)
  then have d: "distinct (map fst (ranking reference descs))" by (rule distinct_keys_ranking)
  have s: "set (map fst (ranking reference descs)) = set (map fst descs)"
    using set_keys_ranking [of reference descs] by simp
  note p1 = table_rows_pinned [OF k r rows]
  note p2 = text_rows_pinned [OF k lines]
  from rows lines l1 l2 p t p1 p2 lr ll ne d s show ?thesis by blast
qed

section \<open>Emitting all candidates\<close>

text \<open>
  C5: with a result count greater than the number of candidates, the display loop of both
  programs emits exactly one row for every entry of the ranking, in the order of the
  ranking, and each row is the row of its entry: the distance and the fields of the
  descriptor stored under the entry's fingerprint. In a run that finds the reference the
  entries are all fetched descriptors, each fingerprint exactly once, so no candidate is
  omitted and none is duplicated.
\<close>

theorem large_count_emits_all:
  assumes "fetch_descriptors q = Inr (log0, descs)" and "map_of descs relay = Some reference"
    and "int (length descs) < K"
  shows "\<exists>rows lines log log'.
           map (table_line ext descs relay c) (ranking reference descs) = map Inr rows
         \<and> map (print_row descs) (ranking reference descs) = map Inr lines
         \<and> lines_loop ext descs relay c K 0 (ranking reference descs) [header] = Inr (header # rows)
         \<and> print_loop descs K 0 (ranking reference descs) (trnns_header @ newline) =
             Inr (trnns_header @ newline @ concat lines)
         \<and> process_descriptors ext q relay K c =
             Inr \<lparr>logged = log, stdout = tabulate ext (header # rows) @ newline, returned = 0\<rparr>
         \<and> trnns_process_descriptors elapsed q relay K =
             Inr \<lparr>logged = log', stdout = trnns_header @ newline @ concat lines, returned = 0\<rparr>
         \<and> list_all2 (emitted_table_row ext descs reference c) (ranking reference descs) rows
         \<and> list_all2 (emitted_text_row descs reference) (ranking reference descs) lines
         \<and> length rows = length descs \<and> length lines = length descs
         \<and> distinct (map fst (ranking reference descs))
         \<and> set (map fst (ranking reference descs)) = set (map fst descs)"
proof -
  from assms(3) have "K < 0 \<or> int (length descs) < K" by simp
  from all_rows_emitted [OF assms(1,2) this, of ext c elapsed] show ?thesis by blast
qed

theorem large_count_emits_all_witness:
  "fetch_descriptors scenario_query = Inr (scenario_log, scenario_descs)
   \<and> map_of scenario_descs ''A'' = Some (example_desc ''A'' [])
   \<and> int (length scenario_descs) < 5
   \<and> (\<exists>rows lines log log'.
           process_descriptors example_ext scenario_query ''A'' 5 False =
             Inr \<lparr>logged = log, stdout = tabulate example_ext (header # rows) @ newline, returned = 0\<rparr>
         \<and> trnns_process_descriptors ''0.001'' scenario_query ''A'' 5 =
             Inr \<lparr>logged = log', stdout = trnns_header @ newline @ concat lines, returned = 0\<rparr>
         \<and> list_all2 (emitted_table_row example_ext scenario_descs (example_desc ''A'' []) False)
               (ranking (example_desc ''A'' []) scenario_descs) rows
         \<and> list_all2 (emitted_text_row scenario_descs (example_desc ''A'' []))
               (ranking (example_desc ''A'' []) scenario_descs) lines
         \<and> length rows = length scenario_descs \<and> length lines = length scenario_descs)
   \<and> (\<exists>log. process_descriptors example_ext scenario_query ''A'' 5 False =
         Inr \<lparr>logged = log,
              stdout = tabulate example_ext
                [header,
                 [''  0'', ''A'', ''relay'', ''10.0.0.1'', ''9001'', ''0'', ''0.2.7.6'',
                  ''Linux'', ''1024'', ''2048'', ''512'', ''3600'', [], []],
                 [''  1'', ''C'', ''relay'', ''10.0.0.1'', ''9001'', ''0'', ''0.2.7.6'',
                  ''Linux'', ''1024'', ''2048'', ''512'', ''3600'', ''x'', []],
                 [''  3'', ''B'', ''relay'', ''10.0.0.1'', ''9001'', ''0'', ''0.2.7.6'',
                  ''Linux'', ''1024'', ''2048'', ''512'', ''3600'', ''xyz'', []]] @ newline,
              returned = 0\<rparr>)
   \<and> (\<exists>log. trnns_process_descriptors ''0.001'' scenario_query ''A'' 5 =
         Inr \<lparr>logged = log,
              stdout = trnns_header @ newline @
                ''  0,A,relay,10.0.0.1,9001,0.2.7.6,Linux,512,'' @ newline @
                ''  1,C,relay,10.0.0.1,9001,0.2.7.6,Linux,512,x'' @ newline @
                ''  3,B,relay,10.0.0.1,9001,0.2.7.6,Linux,512,xyz'' @ newline,
              returned = 0\<rparr>)"
proof -
  have h: "int (length scenario_descs) < 5" by (simp add: scenario_descs_def)
  have k: "(5::int) < 0 \<or> 3 \<le> (5::int)" by simp
  from large_count_emits_all [OF scenario_fetch scenario_reference h,
      of example_ext False "''0.001''"]
  have t: "\<exists>rows lines log log'.
           process_descriptors example_ext scenario_query ''A'' 5 False =
             Inr \<lparr>logged = log, stdout = tabulate example_ext (header # rows) @ newline, returned = 0\<rparr>
         \<and> trnns_process_descriptors ''0.001'' scenario_query ''A'' 5 =
             Inr \<lparr>logged = log', stdout = trnns_header @ newline @ concat lines, returned = 0\<rparr>
         \<and> list_all2 (emitted_table_row example_ext scenario_descs (example_desc ''A'' []) False)
               (ranking (example_desc ''A'' []) scenario_descs) rows
         \<and> list_all2 (emitted_text_row scenario_descs (example_desc ''A'' []))
               (ranking (example_desc ''A'' []) scenario_descs) lines
         \<and> length rows = length scenario_descs \<and> length lines = length scenario_descs"
    by blast
  from t scenario_fetch scenario_reference h scenario_full_run [OF k] scenario_full_run_trnns [OF k]
  show ?thesis by (intro conjI)
qed

text \<open>
  C9: with a negative result count the index never equals the count, so the display loop
  of both programs runs to the end of the ranking: it emits exactly one row for every entry,
  in order, each the row of its entry (the distance and the fields of the descriptor stored
  under the entry's fingerprint), and at least the reference's row, rather than none.
\<close>

theorem negative_count_emits_all:
  assumes "fetch_descriptors q = Inr (log0, descs)" and "map_of descs relay = Some reference"
    and "K < 0"
  shows "\<exists>rows lines log log'.
           map (table_line ext descs relay c) (ranking reference descs) = map Inr rows
         \<and> map (print_row descs) (ranking reference descs) = map Inr lines
         \<and> lines_loop ext descs relay c K 0 (ranking reference descs) [header] = Inr (header # rows)
         \<and> print_loop descs K 0 (ranking reference descs) (trnns_header @ newline) =
             Inr (trnns_header @ newline @ concat lines)
         \<and> process_descriptors ext q relay K c =
             Inr \<lparr>logged = log, stdout = tabulate ext (header # rows) @ newline, returned = 0\<rparr>
         \<and> trnns_process_descriptors elapsed q relay K =
             Inr \<lparr>logged = log', stdout = trnns_header @ newline @ concat lines, returned = 0\<rparr>
         \<and> list_all2 (emitted_table_row ext descs reference c) (ranking reference descs) rows
         \<and> list_all2 (emitted_text_row descs reference) (ranking reference descs) lines
         \<and> length rows = length descs \<and> length lines = length descs
         \<and> rows \<noteq> [] \<and> lines \<noteq> []"
proof -
  from assms(3) have "K < 0 \<or> int (length descs) < K" by simp
  from all_rows_emitted [OF assms(1,2) this, of ext c elapsed] show ?thesis by blast
qed

theorem negative_count_emits_all_witness:
  "fetch_descriptors scenario_query = Inr (scenario_log, scenario_descs)
   \<and> map_of scenario_descs ''A'' = Some (example_desc ''A'' [])
   \<and> (- 1 :: int) < 0
   \<and> (\<exists>rows lines log log'.
           process_descriptors example_ext scenario_query ''A'' (- 1) False =
             Inr \<lparr>logged = log, stdout = tabulate example_ext (header # rows) @ newline, returned = 0\<rparr>
         \<and> trnns_process_descriptors ''0.001'' scenario_query ''A'' (- 1) =
             Inr \<lparr>logged = log', stdout = trnns_header @ newline @ concat lines, returned = 0\<rparr>
         \<and> list_all2 (emitted_table_row example_ext scenario_descs (example_desc ''A'' []) False)
               (ranking (example_desc ''A'' []) scenario_descs) rows
         \<and> list_all2 (emitted_text_row scenario_descs (example_desc ''A'' []))
               (ranking (example_desc ''A'' []) scenario_descs) lines
         \<and> length rows = length scenario_descs \<and> rows \<noteq> [] \<and> lines \<noteq> [])
   \<and> (\<exists>log. process_descriptors example_ext scenario_query ''A'' (- 1) False =
         Inr \<lparr>logged = log,
              stdout = tabulate example_ext
                [header,
                 [''  0'', ''A'', ''relay'', ''10.0.0.1'', ''9001'', ''0'', ''0.2.7.6'',
                  ''Linux'', ''1024'', ''2048'', ''512'', ''3600'', [], []],
                 [''  1'', ''C'', ''relay'', ''10.0.0.1'', ''9001'', ''0'', ''0.2.7.6'',
                  ''Linux'', ''1024'', ''2048'', ''512'', ''3600'', ''x'', []],
                 [''  3'', ''B'', ''relay'', ''10.0.0.1'', ''9001'', ''0'', ''0.2.7.6'',
                  ''Linux'', ''1024'', ''2048'', ''512'', ''3600'', ''xyz'', []]] @ newline,
              returned = 0\<rparr>)
   \<and> (\<exists>log. trnns_process_descriptors ''0.001'' scenario_query ''A'' (- 1) =
         Inr \<lparr>logged = log,
              stdout = trnns_header @ newline @
                ''  0,A,relay,10.0.0.1,9001,0.2.7.6,Linux,512,'' @ newline @
                ''  1,C,relay,10.0.0.1,9001,0.2.7.6,Linux,512,x'' @ newline @
                ''  3,B,relay,10.0.0.1,9001,0.2.7.6,Linux,512,xyz'' @ newline,
              returned = 0\<rparr>)"
proof -
  have h: "(- 1 :: int) < 0" by simp
  have k: "(- 1 :: int) < 0 \<or> 3 \<le> (- 1 :: int)" by simp
  from negative_count_emits_all [OF scenario_fetch scenario_reference h,
      of example_ext False "''0.001''"]
  have t: "\<exists>rows lines log log'.
           process_descriptors example_ext scenario_query ''A'' (- 1) False =
             Inr \<lparr>logged = log, stdout = tabulate example_ext (header # rows) @ newline, returned = 0\<rparr>
         \<and> trnns_process_descriptors ''0.001'' scenario_query ''A'' (- 1) =
             Inr \<lparr>logged = log', stdout = trnns_header @ newline @ concat lines, returned = 0\<rparr>
         \<and> list_all2 (emitted_table_row example_ext scenario_descs (example_desc ''A'' []) False)
               (ranking (example_desc ''A'' []) scenario_descs) rows
         \<and> list_all2 (emitted_text_row scenario_descs (example_desc ''A'' []))
               (ranking (example_desc ''A'' []) scenario_descs) lines
         \<and> length rows = length scenario_descs \<and> rows \<noteq> [] \<and> lines \<noteq> []"
    by blast
  from t scenario_fetch scenario_reference h scenario_full_run [OF k] scenario_full_run_trnns [OF k]
  show ?thesis by (intro conjI)
qed

end
